theory Spec2Isabelle
  imports Complex_Main "HOL-Library.Sublist"
begin

section \<open>JavaScript strings and numbers\<close>

text \<open>
  A JavaScript string is a sequence of UTF-16 code units. The model covers the strings
  whose code units are below 256 (Latin-1), one \<^typ>\<open>char\<close> per code unit; on
  that range \<open>toLowerCase\<close>, \<open>trim\<close> and the class \<open>\s\<close> of regular expressions are
  given by the tables of ECMAScript written out below. JavaScript numbers are modelled
  as real numbers (no rounding, no NaN); \<open>Infinity\<close> is modelled where the code uses it.
\<close>

definition toLowerCase_char :: "char \<Rightarrow> char" where
  "toLowerCase_char c =
     (let n = (of_char c :: nat)
      in if (65 \<le> n \<and> n \<le> 90) \<or> (192 \<le> n \<and> n \<le> 222 \<and> n \<noteq> 215)
         then char_of (n + 32) else c)"

definition toLowerCase :: "string \<Rightarrow> string" where
  "toLowerCase s = map toLowerCase_char s"

text \<open>White space and line terminators: TAB, LF, VT, FF, CR, SP, NBSP.\<close>

definition isWhiteSpace :: "char \<Rightarrow> bool" where
  "isWhiteSpace c = ((of_char c :: nat) \<in> {9, 10, 11, 12, 13, 32, 160})"

definition trim :: "string \<Rightarrow> string" where
  "trim s = rev (dropWhile isWhiteSpace (rev (dropWhile isWhiteSpace s)))"

text \<open>\<open>s.includes(k)\<close>: \<open>k\<close> occurs in \<open>s\<close> as a contiguous substring.\<close>

fun str_includes :: "string \<Rightarrow> string \<Rightarrow> bool" where
  "str_includes [] k = (k = [])"
| "str_includes (c # cs) k = (prefix k (c # cs) \<or> str_includes cs k)"

text \<open>\<open>keywords.some((keyword) => s.includes(keyword))\<close>\<close>

definition some_includes :: "string list \<Rightarrow> string \<Rightarrow> bool" where
  "some_includes keywords s = list_ex (\<lambda>keyword. str_includes s keyword) keywords"

text \<open>
  Decimal rendering of an integer, as a template literal renders an integral number
  (valid below \<open>10^21\<close> in absolute value, where JavaScript prints no exponent).
\<close>

function showNat :: "nat \<Rightarrow> string" where
  "showNat n = (if n < 10 then [char_of (48 + n)]
                else showNat (n div 10) @ [char_of (48 + n mod 10)])"
  by pat_completeness auto
termination
  by (relation "measure (\<lambda>n. n)") auto

definition showInt :: "int \<Rightarrow> string" where
  "showInt i = (if i < 0 then CHR ''-'' # showNat (nat (- i)) else showNat (nat i))"

text \<open>\<open>Math.round\<close>: the nearest integer, a tie going up.\<close>

definition Math_round :: "real \<Rightarrow> int" where
  "Math_round x = \<lfloor>x + 1 / 2\<rfloor>"

section \<open>Data model of the detector results\<close>

record BoundingBox =
  originX :: real
  originY :: real
  width :: real
  height :: real

record Category =
  categoryName :: string
  score :: real

text \<open>\<open>boundingBox\<close> is an optional field of a MediaPipe \<open>Detection\<close>.\<close>

record Detection =
  boundingBox :: "BoundingBox option"
  categories :: "Category list"

record NormalizedLandmark =
  lm_x :: real
  lm_y :: real

text \<open>
  What \<open>detectForVideo\<close> returns: the object and face detectors give \<open>detections\<close>, the
  hand and pose landmarkers give \<open>landmarks\<close>.
\<close>

datatype DetectorResult =
    Detections "Detection list"
  | Landmarks "NormalizedLandmark list list"

section \<open>Effects\<close>

text \<open>
  A model handle is the identity of a loaded MediaPipe task object. The canvas calls and
  the other calls into the browser and the libraries are recorded, in order, in a trace.
  \<open>DrawLabel\<close> records a call of the helper \<open>drawLabel\<close> of src/App.tsx with its
  arguments (label, x, y, colour, position), \<open>DrawLabel_tracker\<close> a call of the helper of
  src/unnamed/part_000 (label, x, y); the helpers' own canvas calls are not expanded.
  \<open>StrokeRect\<close> and \<open>StrokeLine\<close> carry the stroke style and line width set before them.
\<close>

type_synonym handle = nat

datatype ModelKind = ObjectDetector | FaceDetector | HandLandmarker | PoseLandmarker

datatype LabelPosition = Top | Bottom

datatype js_error = TypeError

datatype canvas_op =
    ClearRect real real real real
  | StrokeRect string real real real real real
  | StrokeLine string real real real real real
  | DrawLabel string real real string LabelPosition
  | DrawLabel_tracker string real real

datatype effect =
    Close handle
  | CreateFromOptions ModelKind
  | DetectForVideo handle real
  | Draw canvas_op
  | ConsoleError string
  | Uncaught js_error
  | RequestAnimationFrame

text \<open>The state both versions of the component \<open>App\<close> share.\<close>

record AppBase =
  objectDetector :: "handle option"
  faceDetector :: "handle option"
  handLandmarker :: "handle option"
  poseLandmarker :: "handle option"
  inputPrompt :: string
  isLoading :: bool
  loadingMessage :: string
  errorMessage :: string
  detectionTarget :: string
  lastVideoTime :: real
  trace :: "effect list"

text \<open>The models a state holds, and the \<open>x.current?.close()\<close> of a handle.\<close>

definition heldModels :: "'a AppBase_scheme \<Rightarrow> handle list" where
  "heldModels s =
     concat (map (\<lambda>r. case r of None \<Rightarrow> [] | Some h \<Rightarrow> [h])
       [objectDetector s, faceDetector s, handLandmarker s, poseLandmarker s])"

definition close_opt :: "handle option \<Rightarrow> effect list" where
  "close_opt r = (case r of None \<Rightarrow> [] | Some h \<Rightarrow> [Close h])"

section \<open>The tracker version of \<open>App\<close> (src/unnamed/part_000)\<close>

datatype VisionTask = Object | Face | Hands | Pose

record TrackerApp = AppBase +
  activeTask :: VisionTask

definition init_tracker :: TrackerApp where
  "init_tracker =
     \<lparr>objectDetector = None, faceDetector = None, handLandmarker = None,
      poseLandmarker = None, inputPrompt = ''person'', isLoading = True,
      loadingMessage = ''Initializing AI...'', errorMessage = '''',
      detectionTarget = ''person'', lastVideoTime = - 1, trace = [],
      activeTask = Object\<rparr>"

text \<open>
  \<open>switchModel\<close> up to its \<open>await\<close>: every handle is closed, then every handle is set
  to null, and the construction of the model for \<open>task\<close> is started.
\<close>

definition modelKind_tracker :: "VisionTask \<Rightarrow> ModelKind" where
  "modelKind_tracker task =
     (case task of Object \<Rightarrow> ObjectDetector | Face \<Rightarrow> FaceDetector
      | Hands \<Rightarrow> HandLandmarker | Pose \<Rightarrow> PoseLandmarker)"

definition switchModel_begin_tracker :: "VisionTask \<Rightarrow> TrackerApp \<Rightarrow> TrackerApp" where
  "switchModel_begin_tracker task s =
     s\<lparr>isLoading := True, loadingMessage := ''Loading AI vision model...'',
       trace := trace s @ close_opt (objectDetector s) @ close_opt (faceDetector s)
                @ close_opt (handLandmarker s) @ close_opt (poseLandmarker s)
                @ [CreateFromOptions (modelKind_tracker task)],
       objectDetector := None, faceDetector := None,
       handLandmarker := None, poseLandmarker := None\<rparr>"

text \<open>
  \<open>switchModel\<close> after its \<open>await\<close>: \<open>created\<close> is the handle \<open>createFromOptions\<close>
  resolved with, or \<open>None\<close> when it rejected (the \<open>catch\<close> branch).
\<close>

definition switchModel_end_tracker ::
  "VisionTask \<Rightarrow> handle option \<Rightarrow> TrackerApp \<Rightarrow> TrackerApp" where
  "switchModel_end_tracker task created s =
     (case created of
        Some h \<Rightarrow>
          (case task of
             Object \<Rightarrow> s\<lparr>objectDetector := Some h\<rparr>
           | Face \<Rightarrow> s\<lparr>faceDetector := Some h\<rparr>
           | Hands \<Rightarrow> s\<lparr>handLandmarker := Some h\<rparr>
           | Pose \<Rightarrow> s\<lparr>poseLandmarker := Some h\<rparr>)\<lparr>isLoading := False\<rparr>
      | None \<Rightarrow>
          s\<lparr>trace := trace s @ [ConsoleError ''Failed to switch model''],
            errorMessage :=
              ''Failed to load the selected AI model. Please try another prompt.'',
            isLoading := False\<rparr>)"

definition switchModel_tracker ::
  "VisionTask \<Rightarrow> handle option \<Rightarrow> TrackerApp \<Rightarrow> TrackerApp" where
  "switchModel_tracker task created s =
     switchModel_end_tracker task created (switchModel_begin_tracker task s)"

text \<open>
  The task router \<open>handlePromptSubmit\<close>. Nothing in the \<open>try\<close> block throws
  (\<open>switchModel\<close> catches the rejection of the construction itself), so the \<open>catch\<close>
  branch is not taken; \<open>finally\<close> resets the loading flag.
\<close>

definition faceKeywords :: "string list" where
  "faceKeywords = [''face'', ''head'', ''selfie'', ''visage'']"

definition handKeywords :: "string list" where
  "handKeywords = [''hand'', ''hands'', ''finger'', ''fingers'', ''palm'', ''wave'']"

definition poseKeywords :: "string list" where
  "poseKeywords = [''pose'', ''body'', ''stand'', ''dance'', ''jump'', ''posture'']"

definition routePrompt :: "string \<Rightarrow> VisionTask \<times> string" where
  "routePrompt lowerCasePrompt =
     (if some_includes faceKeywords lowerCasePrompt then (Face, '''')
      else if some_includes handKeywords lowerCasePrompt then (Hands, '''')
      else if some_includes poseKeywords lowerCasePrompt then (Pose, '''')
      else (Object, lowerCasePrompt))"

definition handlePromptSubmit_tracker :: "handle option \<Rightarrow> TrackerApp \<Rightarrow> TrackerApp" where
  "handlePromptSubmit_tracker created s =
     (if inputPrompt s = [] then s
      else
        let s1 = s\<lparr>isLoading := True, loadingMessage := ''Updating tracker...''\<rparr>;
            lowerCasePrompt = trim (toLowerCase (inputPrompt s1));
            newActiveTask = fst (routePrompt lowerCasePrompt);
            newDetectionTarget = snd (routePrompt lowerCasePrompt);
            s2 = s1\<lparr>detectionTarget := newDetectionTarget\<rparr>;
            s3 = (if newActiveTask \<noteq> activeTask s2
                  then switchModel_tracker newActiveTask created
                         (s2\<lparr>activeTask := newActiveTask\<rparr>)
                  else s2)
        in s3\<lparr>isLoading := False\<rparr>)"

text \<open>
  The renderers of the tracker version return the canvas calls made and the exception
  that ended the drawing, if any: reading \<open>categories[0].categoryName\<close> of a detection
  without a category, or a field of an absent \<open>boundingBox\<close>, throws a \<open>TypeError\<close>.
\<close>

definition mirror :: "real \<Rightarrow> BoundingBox \<Rightarrow> real" where
  "mirror w bbox = w - originX bbox - width bbox"

definition objectLabel :: "string \<Rightarrow> Category \<Rightarrow> string" where
  "objectLabel category c = category @ '' ('' @ showInt (Math_round (score c * 100)) @ ''%)''"

fun drawObjectDetections_tracker ::
  "string \<Rightarrow> real \<Rightarrow> Detection list \<Rightarrow> canvas_op list \<times> js_error option" where
  "drawObjectDetections_tracker target w [] = ([], None)"
| "drawObjectDetections_tracker target w (detection # rest) =
     (case categories detection of
        [] \<Rightarrow> ([], Some TypeError)
      | c # _ \<Rightarrow>
          let category = toLowerCase (categoryName c)
          in if target \<noteq> [] \<and> \<not> str_includes category (trim (toLowerCase target))
             then drawObjectDetections_tracker target w rest
             else
               (case boundingBox detection of
                  None \<Rightarrow> ([], Some TypeError)
                | Some bbox \<Rightarrow>
                    let mirroredX = mirror w bbox;
                        later = drawObjectDetections_tracker target w rest
                    in (StrokeRect ''#3B68FF'' 4 mirroredX (originY bbox) (width bbox)
                          (height bbox)
                        # DrawLabel_tracker (objectLabel category c) mirroredX (originY bbox)
                        # fst later, snd later)))"

fun drawFaceDetections_tracker ::
  "real \<Rightarrow> Detection list \<Rightarrow> canvas_op list \<times> js_error option" where
  "drawFaceDetections_tracker w [] = ([], None)"
| "drawFaceDetections_tracker w (detection # rest) =
     (case boundingBox detection of
        None \<Rightarrow> ([], Some TypeError)
      | Some bbox \<Rightarrow>
          let later = drawFaceDetections_tracker w rest
          in (StrokeRect ''#FFFF00'' 2 (mirror w bbox) (originY bbox) (width bbox)
                (height bbox) # fst later, snd later))"

text \<open>\<open>landmark[i]\<close> is \<open>undefined\<close> out of range.\<close>

definition nth_opt :: "'a list \<Rightarrow> nat \<Rightarrow> 'a option" where
  "nth_opt xs i = (if i < length xs then Some (xs ! i) else None)"

definition drawConnection ::
  "string \<Rightarrow> real \<Rightarrow> real \<Rightarrow> NormalizedLandmark list \<Rightarrow> nat \<times> nat \<Rightarrow> canvas_op list" where
  "drawConnection color w h landmark connection =
     (case (nth_opt landmark (fst connection), nth_opt landmark (snd connection)) of
        (Some start, Some end) \<Rightarrow>
          [StrokeLine color 3 (w - lm_x start * w) (lm_y start * h)
             (w - lm_x end * w) (lm_y end * h)]
      | _ \<Rightarrow> [])"

definition drawLandmarks ::
  "NormalizedLandmark list list \<Rightarrow> (nat \<times> nat) list \<Rightarrow> real \<Rightarrow> real \<Rightarrow> string
     \<Rightarrow> canvas_op list" where
  "drawLandmarks landmarks connections w h color =
     concat (map (\<lambda>landmark. concat (map (drawConnection color w h landmark) connections))
       landmarks)"

text \<open>
  \<open>drawResults\<close>: \<open>results\<close> is \<open>None\<close> for \<open>undefined\<close>. Iterating over the field
  \<open>detections\<close> (or \<open>landmarks\<close>) of a result that has none throws a \<open>TypeError\<close>.
  \<open>HAND_CONNECTIONS\<close> and \<open>POSE_CONNECTIONS\<close> are constants of the MediaPipe library,
  taken as parameters.
\<close>

definition drawResults_tracker ::
  "(nat \<times> nat) list \<Rightarrow> (nat \<times> nat) list \<Rightarrow> VisionTask \<Rightarrow> string
     \<Rightarrow> DetectorResult option \<Rightarrow> real \<Rightarrow> real \<Rightarrow> canvas_op list \<times> js_error option" where
  "drawResults_tracker HAND_CONNECTIONS POSE_CONNECTIONS task target results w h =
     (case results of
        None \<Rightarrow> ([ClearRect 0 0 w h], None)
      | Some res \<Rightarrow>
          let drawn =
            (case (task, res) of
               (Object, Detections ds) \<Rightarrow> drawObjectDetections_tracker target w ds
             | (Face, Detections ds) \<Rightarrow> drawFaceDetections_tracker w ds
             | (Hands, Landmarks ls) \<Rightarrow>
                 (drawLandmarks ls HAND_CONNECTIONS w h ''#FF0000'', None)
             | (Pose, Landmarks ls) \<Rightarrow>
                 (drawLandmarks ls POSE_CONNECTIONS w h ''#00FF00'', None)
             | _ \<Rightarrow> ([], Some TypeError))
          in (ClearRect 0 0 w h # fst drawn, snd drawn))"

text \<open>
  One animation-frame callback \<open>renderLoop\<close>. The frame gives what the callback reads
  from outside: the video's \<open>currentTime\<close>, \<open>performance.now()\<close>, what the active
  detector returns for the frame, and the canvas size.
\<close>

record Frame =
  video_currentTime :: real
  performance_now :: real
  detector_result :: DetectorResult
  canvas_width :: real
  canvas_height :: real

definition activeDetector_tracker :: "TrackerApp \<Rightarrow> handle option" where
  "activeDetector_tracker s =
     (if activeTask s = Object \<and> objectDetector s \<noteq> None then objectDetector s
      else if activeTask s = Face \<and> faceDetector s \<noteq> None then faceDetector s
      else if activeTask s = Hands \<and> handLandmarker s \<noteq> None then handLandmarker s
      else if activeTask s = Pose \<and> poseLandmarker s \<noteq> None then poseLandmarker s
      else None)"

definition renderLoop_tracker ::
  "(nat \<times> nat) list \<Rightarrow> (nat \<times> nat) list \<Rightarrow> Frame \<Rightarrow> TrackerApp \<Rightarrow> TrackerApp" where
  "renderLoop_tracker HAND_CONNECTIONS POSE_CONNECTIONS frame s =
     (if video_currentTime frame \<noteq> lastVideoTime s then
        let s1 = s\<lparr>lastVideoTime := video_currentTime frame\<rparr>;
            now = performance_now frame;
            results = (case activeDetector_tracker s1 of
                         None \<Rightarrow> None | Some h \<Rightarrow> Some (detector_result frame));
            s2 = (case activeDetector_tracker s1 of
                    None \<Rightarrow> s1
                  | Some h \<Rightarrow> s1\<lparr>trace := trace s1 @ [DetectForVideo h now]\<rparr>);
            drawn = drawResults_tracker HAND_CONNECTIONS POSE_CONNECTIONS (activeTask s2)
                      (detectionTarget s2) results (canvas_width frame) (canvas_height frame);
            s3 = s2\<lparr>trace := trace s2 @ map Draw (fst drawn)\<rparr>
        in (case snd drawn of
              Some e \<Rightarrow> s3\<lparr>trace := trace s3 @ [Uncaught e]\<rparr>
            | None \<Rightarrow> s3\<lparr>trace := trace s3 @ [RequestAnimationFrame]\<rparr>)
      else s\<lparr>trace := trace s @ [RequestAnimationFrame]\<rparr>)"

section \<open>The person-analysis version of \<open>App\<close> (src/App.tsx)\<close>

datatype DetectionMode = Object_mode | Person_analysis

record AnalysisResult =
  bbox :: BoundingBox
  result_text :: string

record AnalysisApp = AppBase +
  detectionMode :: DetectionMode
  personAnalysisResults :: "AnalysisResult list option"
  lastAnalysisTime :: real
  isAnalyzing :: bool

definition init_analysis :: AnalysisApp where
  "init_analysis =
     \<lparr>objectDetector = None, faceDetector = None, handLandmarker = None,
      poseLandmarker = None, inputPrompt = ''age and gender'', isLoading = True,
      loadingMessage = ''Initializing AI...'', errorMessage = [],
      detectionTarget = [], lastVideoTime = - 1, trace = [],
      detectionMode = Person_analysis, personAnalysisResults = None,
      lastAnalysisTime = 0, isAnalyzing = False\<rparr>"

text \<open>
  \<open>switchModel\<close> of this version closes and nulls the object and the face detector;
  the refs \<open>handLandmarker\<close> and \<open>poseLandmarker\<close> are declared but never assigned here.
\<close>

definition modelKind :: "DetectionMode \<Rightarrow> ModelKind" where
  "modelKind task =
     (case task of Object_mode \<Rightarrow> ObjectDetector | Person_analysis \<Rightarrow> FaceDetector)"

definition switchModel_begin :: "DetectionMode \<Rightarrow> AnalysisApp \<Rightarrow> AnalysisApp" where
  "switchModel_begin task s =
     s\<lparr>isLoading := True, loadingMessage := ''Loading AI vision model...'',
       trace := trace s @ close_opt (objectDetector s) @ close_opt (faceDetector s)
                @ [CreateFromOptions (modelKind task)],
       objectDetector := None, faceDetector := None\<rparr>"

definition switchModel_end ::
  "DetectionMode \<Rightarrow> handle option \<Rightarrow> AnalysisApp \<Rightarrow> AnalysisApp" where
  "switchModel_end task created s =
     (case created of
        Some h \<Rightarrow>
          (case task of
             Object_mode \<Rightarrow> s\<lparr>objectDetector := Some h\<rparr>
           | Person_analysis \<Rightarrow> s\<lparr>faceDetector := Some h\<rparr>)\<lparr>isLoading := False\<rparr>
      | None \<Rightarrow>
          s\<lparr>trace := trace s @ [ConsoleError ''Failed to switch model''],
            errorMessage :=
              ''Failed to load the selected AI model. Please try another prompt.'',
            isLoading := False\<rparr>)"

definition switchModel :: "DetectionMode \<Rightarrow> handle option \<Rightarrow> AnalysisApp \<Rightarrow> AnalysisApp" where
  "switchModel task created s = switchModel_end task created (switchModel_begin task s)"

definition handleModeChange ::
  "DetectionMode \<Rightarrow> handle option \<Rightarrow> AnalysisApp \<Rightarrow> AnalysisApp" where
  "handleModeChange mode created s =
     (if mode = detectionMode s then s
      else
        let s1 = s\<lparr>detectionMode := mode, personAnalysisResults := None,
                   errorMessage := []\<rparr>;
            s2 = (if mode = Object_mode
                  then s1\<lparr>inputPrompt := ''cup'', detectionTarget := ''cup''\<rparr>
                  else s1\<lparr>inputPrompt := ''age and gender'', detectionTarget := []\<rparr>)
        in switchModel mode created s2)"

subsection \<open>\<open>analyzeAllFaces\<close>\<close>

text \<open>
  The asynchronous callback run for one detection either returns null (no bounding box),
  or resolves with the text of the cloud response, or rejects. \<open>cloud i\<close> is the outcome
  for the detection at position \<open>i\<close>. \<open>Promise.all\<close> rejects when one of the promises
  rejects and resolves with all the values otherwise.
\<close>

datatype request_outcome = Resolved string | Rejected

definition analyzeFace ::
  "(nat \<Rightarrow> request_outcome) \<Rightarrow> nat \<times> Detection \<Rightarrow> unit + AnalysisResult option" where
  "analyzeFace cloud p =
     (case boundingBox (snd p) of
        None \<Rightarrow> Inr None
      | Some b \<Rightarrow>
          (case cloud (fst p) of
             Rejected \<Rightarrow> Inl ()
           | Resolved response_text \<Rightarrow>
               Inr (Some \<lparr>bbox = \<lparr>originX = originX b, originY = originY b,
                                  width = width b, height = height b\<rparr>,
                          result_text = response_text\<rparr>)))"

fun Promise_all :: "('e + 'a) list \<Rightarrow> 'e + 'a list" where
  "Promise_all [] = Inr []"
| "Promise_all (p # ps) =
     (case p of
        Inl e \<Rightarrow> Inl e
      | Inr v \<Rightarrow> (case Promise_all ps of Inl e \<Rightarrow> Inl e | Inr vs \<Rightarrow> Inr (v # vs)))"

text \<open>\<open>xs.filter(Boolean)\<close> on a list of objects and nulls.\<close>

definition filter_Boolean :: "'a option list \<Rightarrow> 'a list" where
  "filter_Boolean xs = concat (map (\<lambda>x. case x of None \<Rightarrow> [] | Some v \<Rightarrow> [v]) xs)"

text \<open>
  The guard of \<open>analyzeAllFaces\<close> (\<open>videoPresent\<close>: \<open>videoRef.current\<close> is not null), the
  part that runs at the call (up to the \<open>await\<close>), and the part that runs when
  \<open>Promise.all\<close> has settled: \<open>try\<close>, \<open>catch\<close>, \<open>finally\<close>.
\<close>

definition analyzeAllFaces_skips :: "Detection list \<Rightarrow> bool \<Rightarrow> AnalysisApp \<Rightarrow> bool" where
  "analyzeAllFaces_skips detections videoPresent s =
     (detections = [] \<or> \<not> videoPresent \<or> isAnalyzing s)"

definition analyzeAllFaces_start :: "Detection list \<Rightarrow> bool \<Rightarrow> AnalysisApp \<Rightarrow> AnalysisApp" where
  "analyzeAllFaces_start detections videoPresent s =
     (if analyzeAllFaces_skips detections videoPresent s then s
      else s\<lparr>isAnalyzing := True\<rparr>)"

definition analyzeAllFaces_settle ::
  "(nat \<Rightarrow> request_outcome) \<Rightarrow> Detection list \<Rightarrow> AnalysisApp \<Rightarrow> AnalysisApp" where
  "analyzeAllFaces_settle cloud detections s =
     (case Promise_all (map (analyzeFace cloud) (enumerate 0 detections)) of
        Inr results \<Rightarrow> s\<lparr>personAnalysisResults := Some (filter_Boolean results)\<rparr>
      | Inl e \<Rightarrow> s\<lparr>trace := trace s @ [ConsoleError ''Failed to analyze faces'']\<rparr>)
     \<lparr>isAnalyzing := False\<rparr>"

definition analyzeAllFaces ::
  "(nat \<Rightarrow> request_outcome) \<Rightarrow> Detection list \<Rightarrow> bool \<Rightarrow> AnalysisApp \<Rightarrow> AnalysisApp" where
  "analyzeAllFaces cloud detections videoPresent s =
     (if analyzeAllFaces_skips detections videoPresent s then s
      else analyzeAllFaces_settle cloud detections
             (analyzeAllFaces_start detections videoPresent s))"

subsection \<open>The object renderer and its target filter\<close>

text \<open>
  \<open>s.split(/[\s,]+|and/i)\<close>: at each position the first alternative takes the longest
  run of white space and commas, the second the letters a, n, d in either case; the
  characters between two matches form a piece. \<open>cur\<close> is the piece being read.
\<close>

definition isSeparator :: "char \<Rightarrow> bool" where
  "isSeparator c = (isWhiteSpace c \<or> c = CHR '','')"

fun matches_and :: "string \<Rightarrow> bool" where
  "matches_and (a # n # d # _) =
     ((a = CHR ''a'' \<or> a = CHR ''A'') \<and> (n = CHR ''n'' \<or> n = CHR ''N'')
      \<and> (d = CHR ''d'' \<or> d = CHR ''D''))"
| "matches_and _ = False"

function split_regex :: "string \<Rightarrow> string \<Rightarrow> string list" where
  "split_regex [] cur = [cur]"
| "split_regex (c # cs) cur =
     (if isSeparator c then cur # split_regex (dropWhile isSeparator cs) []
      else if matches_and (c # cs) then cur # split_regex (drop 2 cs) []
      else split_regex cs (cur @ [c]))"
  by pat_completeness auto
termination
  by (relation "measure (\<lambda>(s, cur). length s)")
     (auto simp: length_dropWhile_le less_Suc_eq_le)

definition targets_of :: "string \<Rightarrow> string list" where
  "targets_of target =
     filter (\<lambda>t. t \<noteq> []) (split_regex (trim (toLowerCase target)) [])"

text \<open>One iteration of the loop of \<open>drawObjectDetections\<close>, and the loop.\<close>

definition drawObjectDetection :: "string list \<Rightarrow> real \<Rightarrow> Detection \<Rightarrow> canvas_op list" where
  "drawObjectDetection targets w detection =
     (case boundingBox detection of
        None \<Rightarrow> []
      | Some b \<Rightarrow>
          (case categories detection of
             [] \<Rightarrow> []
           | c # _ \<Rightarrow>
               let category = toLowerCase (categoryName c)
               in if targets \<noteq> [] \<and> \<not> list_ex (\<lambda>target. str_includes category target) targets
                  then []
                  else
                    let mirroredX = mirror w b
                    in [StrokeRect ''#3B68FF'' 4 mirroredX (originY b) (width b) (height b),
                        DrawLabel (objectLabel category c) mirroredX (originY b)
                          ''#3B68FF'' Top]))"

definition drawObjectDetections :: "string \<Rightarrow> real \<Rightarrow> Detection list \<Rightarrow> canvas_op list" where
  "drawObjectDetections target w detections =
     concat (map (drawObjectDetection (targets_of target) w) detections)"

subsection \<open>The face renderer and the matching of analysis results\<close>

text \<open>
  The array \<open>unattachedDetections\<close> holds references to the detection objects of the
  frame. An object is modelled as its identity, the position in the frame's array
  \<open>detections\<close>, paired with its fields, so that \<open>[...detections]\<close> is
  \<open>enumerate 0 detections\<close>.
\<close>

type_synonym det_obj = "nat \<times> Detection"

definition boxCenter :: "BoundingBox \<Rightarrow> real \<times> real" where
  "boxCenter b = (originX b + width b / 2, originY b + height b / 2)"

definition centerDistance :: "real \<times> real \<Rightarrow> real \<times> real \<Rightarrow> real" where
  "centerDistance p q = sqrt ((fst p - fst q)\<^sup>2 + (snd p - snd q)\<^sup>2)"

text \<open>
  The inner loop over \<open>unattachedDetections\<close> from index \<open>i\<close> on. The variables
  \<open>bestMatch\<close>, \<open>bestMatchIndex\<close> and \<open>minDistance\<close> change only together: \<open>None\<close>
  stands for their initial values null, \<open>-1\<close> and \<open>Infinity\<close> (every distance is below
  \<open>Infinity\<close>), \<open>Some (bestMatch, bestMatchIndex, minDistance)\<close> for the values set.
\<close>

fun scanDetections ::
  "real \<times> real \<Rightarrow> det_obj list \<Rightarrow> nat \<Rightarrow> (det_obj \<times> nat \<times> real) option
     \<Rightarrow> (det_obj \<times> nat \<times> real) option" where
  "scanDetections resultCenter [] i best = best"
| "scanDetections resultCenter (detection # rest) i best =
     (case boundingBox (snd detection) of
        None \<Rightarrow> scanDetections resultCenter rest (Suc i) best
      | Some detBbox \<Rightarrow>
          let distance = centerDistance resultCenter (boxCenter detBbox)
          in if (case best of None \<Rightarrow> True
                 | Some (bestMatch, bestMatchIndex, minDistance) \<Rightarrow> distance < minDistance)
             then scanDetections resultCenter rest (Suc i) (Some (detection, i, distance))
             else scanDetections resultCenter rest (Suc i) best)"

text \<open>
  The test after the loop: the match and its index when it is accepted. A best match
  always has a bounding box (only such detections are taken in the loop), so the branch
  for an absent box is never reached.
\<close>

definition findBestMatch :: "AnalysisResult \<Rightarrow> det_obj list \<Rightarrow> (det_obj \<times> nat) option" where
  "findBestMatch result unattachedDetections =
     (case scanDetections (boxCenter (bbox result)) unattachedDetections 0 None of
        None \<Rightarrow> None
      | Some (bestMatch, bestMatchIndex, minDistance) \<Rightarrow>
          (case boundingBox (snd bestMatch) of
             None \<Rightarrow> None
           | Some b \<Rightarrow>
               if minDistance < width b * 0.75 then Some (bestMatch, bestMatchIndex)
               else None))"

text \<open>\<open>xs.splice(i, 1)\<close>\<close>

definition splice1 :: "nat \<Rightarrow> 'a list \<Rightarrow> 'a list" where
  "splice1 i xs = take i xs @ drop (Suc i) xs"

text \<open>
  The loop over \<open>personAnalysisResults\<close>: the results that attach, each with the
  detection it claims, in the order of the results.
\<close>

fun attachLabels ::
  "AnalysisResult list \<Rightarrow> det_obj list \<Rightarrow> (AnalysisResult \<times> det_obj) list" where
  "attachLabels [] unattachedDetections = []"
| "attachLabels (result # rest) unattachedDetections =
     (case findBestMatch result unattachedDetections of
        None \<Rightarrow> attachLabels rest unattachedDetections
      | Some (bestMatch, bestMatchIndex) \<Rightarrow>
          (result, bestMatch)
          # attachLabels rest (splice1 bestMatchIndex unattachedDetections))"

definition faceBox :: "real \<Rightarrow> Detection \<Rightarrow> canvas_op list" where
  "faceBox w detection =
     (case boundingBox detection of
        None \<Rightarrow> []
      | Some b \<Rightarrow> [StrokeRect ''#3B68FF'' 2 (mirror w b) (originY b) (width b) (height b)])"

definition faceLabel :: "real \<Rightarrow> AnalysisResult \<times> det_obj \<Rightarrow> canvas_op list" where
  "faceLabel w attached =
     (case boundingBox (snd (snd attached)) of
        None \<Rightarrow> []
      | Some b \<Rightarrow>
          [DrawLabel (result_text (fst attached)) (mirror w b) (originY b + height b)
             ''#3B68FF'' Bottom])"

text \<open>
  \<open>drawFaceDetections\<close>: \<open>detections\<close> is \<open>None\<close> for \<open>undefined\<close>, the analysis results
  are \<open>None\<close> for null.
\<close>

definition faceAttachments ::
  "AnalysisResult list option \<Rightarrow> Detection list \<Rightarrow> (AnalysisResult \<times> det_obj) list" where
  "faceAttachments results detections =
     (case results of
        None \<Rightarrow> []
      | Some rs \<Rightarrow> if length rs > 0 then attachLabels rs (enumerate 0 detections) else [])"

definition drawFaceDetections ::
  "AnalysisResult list option \<Rightarrow> real \<Rightarrow> Detection list option \<Rightarrow> canvas_op list" where
  "drawFaceDetections results w detections =
     (case detections of
        None \<Rightarrow> []
      | Some ds \<Rightarrow>
          concat (map (faceBox w) ds)
          @ concat (map (faceLabel w) (faceAttachments results ds)))"

subsection \<open>\<open>drawResults\<close> and the render loop\<close>

definition detections_of :: "DetectorResult \<Rightarrow> Detection list option" where
  "detections_of res = (case res of Detections ds \<Rightarrow> Some ds | Landmarks ls \<Rightarrow> None)"

definition drawResults ::
  "AnalysisApp \<Rightarrow> DetectorResult option \<Rightarrow> real \<Rightarrow> real
     \<Rightarrow> canvas_op list \<times> js_error option" where
  "drawResults s results w h =
     (case results of
        None \<Rightarrow> ([ClearRect 0 0 w h], None)
      | Some res \<Rightarrow>
          (case detectionMode s of
             Object_mode \<Rightarrow>
               (case detections_of res of
                  None \<Rightarrow> ([ClearRect 0 0 w h], Some TypeError)
                | Some ds \<Rightarrow>
                    (ClearRect 0 0 w h # drawObjectDetections (detectionTarget s) w ds, None))
           | Person_analysis \<Rightarrow>
               (ClearRect 0 0 w h
                # drawFaceDetections (personAnalysisResults s) w (detections_of res), None)))"

definition activeDetector :: "AnalysisApp \<Rightarrow> handle option" where
  "activeDetector s =
     (if detectionMode s = Object_mode \<and> objectDetector s \<noteq> None then objectDetector s
      else if detectionMode s = Person_analysis \<and> faceDetector s \<noteq> None
           then faceDetector s
      else None)"

text \<open>
  One animation-frame callback \<open>renderLoop\<close>. The call of \<open>analyzeAllFaces\<close> is not
  awaited: the callback runs it up to its \<open>await\<close>.
\<close>

definition renderLoop :: "Frame \<Rightarrow> AnalysisApp \<Rightarrow> AnalysisApp" where
  "renderLoop frame s =
     (if video_currentTime frame \<noteq> lastVideoTime s then
        let s1 = s\<lparr>lastVideoTime := video_currentTime frame\<rparr>;
            nowMs = performance_now frame;
            results = (case activeDetector s1 of
                         None \<Rightarrow> None | Some h \<Rightarrow> Some (detector_result frame));
            s2 = (case activeDetector s1 of
                    None \<Rightarrow> s1
                  | Some h \<Rightarrow> s1\<lparr>trace := trace s1 @ [DetectForVideo h nowMs]\<rparr>);
            found = (case results of
                       None \<Rightarrow> []
                     | Some res \<Rightarrow> (case detections_of res of None \<Rightarrow> [] | Some ds \<Rightarrow> ds));
            s3 = (if detectionMode s2 = Person_analysis \<and> length found > 0
                     \<and> nowMs - lastAnalysisTime s2 > 3000
                  then analyzeAllFaces_start found True (s2\<lparr>lastAnalysisTime := nowMs\<rparr>)
                  else s2);
            drawn = drawResults s3 results (canvas_width frame) (canvas_height frame);
            s4 = s3\<lparr>trace := trace s3 @ map Draw (fst drawn)\<rparr>
        in (case snd drawn of
              Some e \<Rightarrow> s4\<lparr>trace := trace s4 @ [Uncaught e]\<rparr>
            | None \<Rightarrow> s4\<lparr>trace := trace s4 @ [RequestAnimationFrame]\<rparr>)
      else s\<lparr>trace := trace s @ [RequestAnimationFrame]\<rparr>)"

text \<open>The calls of \<open>detectForVideo\<close> recorded in a trace.\<close>

fun inferenceCalls :: "effect list \<Rightarrow> (handle \<times> real) list" where
  "inferenceCalls [] = []"
| "inferenceCalls (DetectForVideo h t # es) = (h, t) # inferenceCalls es"
| "inferenceCalls (e # es) = inferenceCalls es"

section \<open>The session store and its reset (src/atoms.tsx, src/hooks.tsx)\<close>

record BoundingBox2D =
  x_2d :: real
  y_2d :: real
  width_2d :: real
  height_2d :: real
  label_2d :: string

record BoundingBox3D =
  center_3d :: "real list"
  size_3d :: "real list"
  rpy_3d :: "real list"
  label_3d :: string

record BoundingBoxMask =
  x_mask :: real
  y_mask :: real
  width_mask :: real
  height_mask :: real
  label_mask :: string
  imageData_mask :: string

record Point =
  point :: "real \<times> real"
  label_point :: string

type_synonym Line = "(real \<times> real) list \<times> string"

text \<open>
  \<open>DetectTypes\<close> is declared in \<open>Types.tsx\<close>, which is not among the sources; its values
  are the keys of \<open>defaultPrompts\<close> in src/atoms.tsx.
\<close>

datatype DetectTypes =
  Bounding_boxes_2D | Segmentation_masks | Points | Bounding_boxes_3D

text \<open>
  A \<open>MediaStream\<close> is the list of its tracks, a track is its identity; whether a track
  is live is a fact of the browser, kept beside the atoms in \<open>trackLive\<close>. The video
  element of \<open>VideoRefAtom\<close> is an identity or null.
\<close>

type_synonym MediaStream = "nat list"

record Store =
  ImageSrcAtom :: "string option"
  IsUploadedImageAtom :: bool
  BoundingBoxes2DAtom :: "BoundingBox2D list"
  BoundingBoxes3DAtom :: "BoundingBox3D list"
  BoundingBoxMasksAtom :: "BoundingBoxMask list"
  ShareStream :: "MediaStream option"
  DetectTypeAtom :: DetectTypes
  VideoRefAtom :: "nat option"
  FOVAtom :: real
  ImageSentAtom :: bool
  PointsAtom :: "Point list"
  RevealOnHoverModeAtom :: bool
  HoverEnteredAtom :: bool
  HoveredBoxAtom :: "nat option"
  DrawModeAtom :: bool
  LinesAtom :: "Line list"
  ActiveColorAtom :: string
  BumpSessionAtom :: real
  IsLoadingAtom :: bool
  TemperatureAtom :: real
  PromptsAtom :: "DetectTypes \<Rightarrow> string \<times> string \<times> string"
  CustomPromptsAtom :: "DetectTypes \<Rightarrow> string"
  trackLive :: "nat \<Rightarrow> bool"

definition defaultPrompts :: "DetectTypes \<Rightarrow> string \<times> string \<times> string" where
  "defaultPrompts t =
     (case t of
        Bounding_boxes_2D \<Rightarrow>
          (''Detect'', ''items'',
           '', with no more than 20 items. Output a json list where each entry contains the 2D bounding box in \"box_2d\" and a text label in \"label\".'')
      | Segmentation_masks \<Rightarrow>
          (''Segment'', ''everything'',
           ''. Output a json list where each entry contains the 2D bounding box in \"box_2d\", a text label in the key \"label\". Use descriptive labels.'')
      | Points \<Rightarrow>
          (''Detect key points on'', ''a person'',
           '' in the image. Output a json list where each entry contains a point in \"point\" and a text label in \"label\".'')
      | Bounding_boxes_3D \<Rightarrow>
          (''Detect'', ''cars'',
           ''. Respond in a JSON list, with each entry having a 3D bounding box in \"box_3d\" and a text label in \"label\".''))"

text \<open>The values the atoms are created with; every track is live.\<close>

definition init_store :: Store where
  "init_store =
     \<lparr>ImageSrcAtom = Some ''assets/1.png'', IsUploadedImageAtom = False,
      BoundingBoxes2DAtom = [], BoundingBoxes3DAtom = [], BoundingBoxMasksAtom = [],
      ShareStream = None, DetectTypeAtom = Bounding_boxes_2D, VideoRefAtom = None,
      FOVAtom = 90, ImageSentAtom = False, PointsAtom = [],
      RevealOnHoverModeAtom = False, HoverEnteredAtom = False, HoveredBoxAtom = None,
      DrawModeAtom = False, LinesAtom = [], ActiveColorAtom = ''#3B68FF'',
      BumpSessionAtom = 0, IsLoadingAtom = False, TemperatureAtom = 0.25,
      PromptsAtom = defaultPrompts, CustomPromptsAtom = (\<lambda>t. []),
      trackLive = (\<lambda>t. True)\<rparr>"

text \<open>\<open>prev?.getTracks().forEach((track) => track.stop())\<close>\<close>

definition stopTracks :: "MediaStream option \<Rightarrow> (nat \<Rightarrow> bool) \<Rightarrow> (nat \<Rightarrow> bool)" where
  "stopTracks prev live =
     (case prev of None \<Rightarrow> live | Some tracks \<Rightarrow> (\<lambda>t. if t \<in> set tracks then False else live t))"

text \<open>The function \<open>useResetState\<close> returns.\<close>

definition useResetState :: "Store \<Rightarrow> Store" where
  "useResetState s =
     s\<lparr>ImageSrcAtom := None,
       BoundingBoxes2DAtom := [],
       BoundingBoxes3DAtom := [],
       BoundingBoxMasksAtom := [],
       PointsAtom := [],
       LinesAtom := [],
       DrawModeAtom := False,
       trackLive := stopTracks (ShareStream s) (trackLive s),
       ShareStream := None,
       IsUploadedImageAtom := False,
       ImageSentAtom := False\<rparr>"

section \<open>Runs of the two versions of \<open>App\<close>\<close>

text \<open>\<open>handlePromptSubmit\<close> of src/App.tsx.\<close>

definition handlePromptSubmit :: "AnalysisApp \<Rightarrow> AnalysisApp" where
  "handlePromptSubmit s =
     (if inputPrompt s = [] then s
      else (case detectionMode s of
              Object_mode \<Rightarrow> s\<lparr>detectionTarget := inputPrompt s\<rparr>
            | Person_analysis \<Rightarrow> s\<lparr>lastAnalysisTime := 0, personAnalysisResults := None\<rparr>))"

text \<open>
  What happens to the component: the setup effect loads the first model, the user types
  a prompt and submits it (or picks a mode), an animation frame is rendered, a batch of
  cloud requests settles. A switch of the model runs to its end before the next event:
  the controls that start one are disabled while \<open>isLoading\<close> is set. A run is a
  sequence of events from the initial state.

  The functions of a render see the cells of \<open>useState\<close> as they were at that render;
  the refs (the model handles, \<open>lastAnalysisTime\<close>, \<open>isAnalyzing\<close>), the module-level
  \<open>lastVideoTime\<close> and the world outside (the trace) are shared by all renders.
  \<open>stateCells c s\<close> is \<open>s\<close> with the \<open>useState\<close> cells of \<open>c\<close>. The handlers of the
  form and of the buttons are those of the latest render, which sees the current
  cells. The setup and \<open>predict\<close>, and with it the render loop, are registered once, by
  the mount effect (\<open>addEventListener('loadeddata', predict)\<close> in \<open>setupCamera\<close>): the loop
  that runs is the one of the first render, which sees the initial values of the cells
  for ever, and whose writes to the refs and to \<open>lastVideoTime\<close> are seen by all.
\<close>

definition stateCells_tracker :: "TrackerApp \<Rightarrow> TrackerApp \<Rightarrow> TrackerApp" where
  "stateCells_tracker c s =
     s\<lparr>inputPrompt := inputPrompt c, isLoading := isLoading c,
       loadingMessage := loadingMessage c, errorMessage := errorMessage c,
       detectionTarget := detectionTarget c, activeTask := activeTask c\<rparr>"

datatype tracker_event =
    Setup_tracker "handle option"
  | Typed_tracker string
  | Submitted_tracker "handle option"
  | Rendered_tracker "(nat \<times> nat) list" "(nat \<times> nat) list" Frame

fun step_tracker :: "TrackerApp \<Rightarrow> tracker_event \<Rightarrow> TrackerApp" where
  "step_tracker s (Setup_tracker created) =
     switchModel_tracker (activeTask init_tracker) created s"
| "step_tracker s (Typed_tracker p) = s\<lparr>inputPrompt := p\<rparr>"
| "step_tracker s (Submitted_tracker created) = handlePromptSubmit_tracker created s"
| "step_tracker s (Rendered_tracker hc pc frame) =
     stateCells_tracker s
       (renderLoop_tracker hc pc frame (stateCells_tracker init_tracker s))"

definition run_tracker :: "tracker_event list \<Rightarrow> TrackerApp" where
  "run_tracker evs = foldl step_tracker init_tracker evs"

definition stateCells :: "AnalysisApp \<Rightarrow> AnalysisApp \<Rightarrow> AnalysisApp" where
  "stateCells c s =
     s\<lparr>inputPrompt := inputPrompt c, isLoading := isLoading c,
       loadingMessage := loadingMessage c, errorMessage := errorMessage c,
       detectionTarget := detectionTarget c, detectionMode := detectionMode c,
       personAnalysisResults := personAnalysisResults c\<rparr>"

text \<open>
  A batch settles in \<open>analyzeAllFaces\<close> of the first render too. Of the cells it reads
  only \<open>inputPrompt\<close>, for the text of the requests, whose outcomes the event gives; the
  setter it calls writes the current cell \<open>personAnalysisResults\<close>.
\<close>

datatype analysis_event =
    Setup "handle option"
  | Typed string
  | Submitted
  | ModeChanged DetectionMode "handle option"
  | Rendered Frame
  | Settled "nat \<Rightarrow> request_outcome" "Detection list"

fun step_analysis :: "AnalysisApp \<Rightarrow> analysis_event \<Rightarrow> AnalysisApp" where
  "step_analysis s (Setup created) = switchModel Person_analysis created s"
| "step_analysis s (Typed p) = s\<lparr>inputPrompt := p\<rparr>"
| "step_analysis s Submitted = handlePromptSubmit s"
| "step_analysis s (ModeChanged mode created) = handleModeChange mode created s"
| "step_analysis s (Rendered frame) =
     stateCells s (renderLoop frame (stateCells init_analysis s))"
| "step_analysis s (Settled cloud detections) = analyzeAllFaces_settle cloud detections s"

definition run_analysis :: "analysis_event list \<Rightarrow> AnalysisApp" where
  "run_analysis evs = foldl step_analysis init_analysis evs"

section \<open>Reading the canvas\<close>

text \<open>The rectangles stroked by a list of canvas calls: x, y, width, height.\<close>

fun strokeRects :: "canvas_op list \<Rightarrow> (real \<times> real \<times> real \<times> real) list" where
  "strokeRects [] = []"
| "strokeRects (StrokeRect style lw x y w h # ops) = (x, y, w, h) # strokeRects ops"
| "strokeRects (op # ops) = strokeRects ops"

text \<open>The canvas calls recorded in a trace.\<close>

fun canvasCalls :: "effect list \<Rightarrow> canvas_op list" where
  "canvasCalls [] = []"
| "canvasCalls (Draw op # es) = op # canvasCalls es"
| "canvasCalls (e # es) = canvasCalls es"


section \<open>Invariants of the runs\<close>

text \<open>
  In src/App.tsx the two landmarker refs stay null, so the two handles \<open>switchModel\<close>
  closes there are all the handles held.
\<close>

definition no_landmarkers :: "AnalysisApp \<Rightarrow> bool" where
  "no_landmarkers s = (handLandmarker s = None \<and> poseLandmarker s = None)"

definition one_model :: "AnalysisApp \<Rightarrow> bool" where
  "one_model s = (no_landmarkers s \<and> length (heldModels s) \<le> 1)"

section \<open>The nearest detection\<close>

text \<open>
  The distance from a point to the centre of a detection's box, if it has one; and what
  it means that the detection at index \<open>k\<close> of a pool is the nearest to the point, at
  distance \<open>m\<close>: no detection of the pool is nearer, and those before it are farther.
\<close>

definition detDistance :: "real \<times> real \<Rightarrow> det_obj \<Rightarrow> real option" where
  "detDistance p d = map_option (\<lambda>b. centerDistance p (boxCenter b)) (boundingBox (snd d))"

definition nearestAt :: "real \<times> real \<Rightarrow> det_obj list \<Rightarrow> nat \<Rightarrow> real \<Rightarrow> bool" where
  "nearestAt p pool k m =
     (k < length pool \<and> detDistance p (pool ! k) = Some m
      \<and> (\<forall>j \<in> {..<length pool}. \<forall>dx. detDistance p (pool ! j) = Some dx
            \<longrightarrow> m \<le> dx \<and> (j < k \<longrightarrow> m < dx)))"

text \<open>The best match so far, if any, is farther than \<open>m\<close>.\<close>

definition farther :: "real \<Rightarrow> (det_obj \<times> nat \<times> real) option \<Rightarrow> bool" where
  "farther m best = (case best of None \<Rightarrow> True | Some (bd, bi, bm) \<Rightarrow> m < bm)"

section \<open>The target filter in the words of the specification\<close>

text \<open>
  The tokens of a detection target as the specification words them: the target is
  lower-cased and split at white space and commas, the word \<open>and\<close> separates tokens too
  (it is no token itself), and empty tokens are dropped. To be compared with
  \<open>targets_of\<close>, the tokens the code computes.
\<close>

fun split_words :: "string \<Rightarrow> string \<Rightarrow> string list" where
  "split_words [] cur = [cur]"
| "split_words (c # cs) cur =
     (if isSeparator c then cur # split_words cs [] else split_words cs (cur @ [c]))"

definition targets_spec :: "string \<Rightarrow> string list" where
  "targets_spec target =
     filter (\<lambda>t. t \<noteq> [] \<and> t \<noteq> ''and'') (split_words (trim (toLowerCase target)) [])"

section \<open>The task router\<close>

lemma toLowerCase_Nil: "toLowerCase [] = []" by (simp add: toLowerCase_def)
lemma trim_Nil: "trim [] = []" by (simp add: trim_def)

lemma toLowerCase_append: "toLowerCase (a @ b) = toLowerCase a @ toLowerCase b"
  by (simp add: toLowerCase_def)

lemma toLowerCase_char_space: "isWhiteSpace c \<Longrightarrow> toLowerCase_char c = c"
  by (auto simp: isWhiteSpace_def toLowerCase_char_def)

lemma toLowerCase_spaces: "list_all isWhiteSpace l \<Longrightarrow> toLowerCase l = l"
  by (induction l) (auto simp: toLowerCase_def toLowerCase_char_space)

lemma dropWhile_all: "list_all P l \<Longrightarrow> dropWhile P (l @ q) = dropWhile P q"
  by (induction l) auto

lemma trim_pad_right:
  assumes "list_all isWhiteSpace r"
  shows "rev (dropWhile isWhiteSpace (rev (dropWhile isWhiteSpace (q @ r))))
       = rev (dropWhile isWhiteSpace (rev (dropWhile isWhiteSpace q)))"
proof (cases "list_all isWhiteSpace q")
  case True
  have "dropWhile isWhiteSpace (q @ r) = []"
    using True assms unfolding dropWhile_eq_Nil_conv by (auto simp: list_all_iff)
  moreover have "dropWhile isWhiteSpace q = []"
    using True unfolding dropWhile_eq_Nil_conv by (auto simp: list_all_iff)
  ultimately show ?thesis by (simp only:)
next
  case False
  then obtain x where "x \<in> set q" "\<not> isWhiteSpace x" by (auto simp: list_all_iff)
  then have "dropWhile isWhiteSpace (q @ r) = dropWhile isWhiteSpace q @ r"
    by simp
  moreover have "list_all isWhiteSpace (rev r)" using assms by (simp add: list_all_iff)
  ultimately show ?thesis by (simp add: dropWhile_all)
qed

lemma trim_padded:
  "list_all isWhiteSpace l \<Longrightarrow> list_all isWhiteSpace r \<Longrightarrow> trim (l @ q @ r) = trim q"
  unfolding trim_def by (simp add: dropWhile_all trim_pad_right)

lemma some_includes_face_Nil: "\<not> some_includes faceKeywords []"
  by (simp add: some_includes_def faceKeywords_def)

lemma activeTask_switchModel_tracker:
  "activeTask (switchModel_tracker task created s) = activeTask s"
  by (cases task; cases created) (simp_all add: switchModel_tracker_def switchModel_end_tracker_def switchModel_begin_tracker_def)

lemma detectionTarget_switchModel_tracker:
  "detectionTarget (switchModel_tracker task created s) = detectionTarget s"
  by (cases task; cases created) (simp_all add: switchModel_tracker_def switchModel_end_tracker_def switchModel_begin_tracker_def)

lemma handlePromptSubmit_tracker_routes:
  assumes "inputPrompt s \<noteq> []"
  shows "activeTask (handlePromptSubmit_tracker created s)
           = fst (routePrompt (trim (toLowerCase (inputPrompt s))))
       \<and> detectionTarget (handlePromptSubmit_tracker created s)
           = snd (routePrompt (trim (toLowerCase (inputPrompt s))))"
  using assms
  by (simp add: handlePromptSubmit_tracker_def Let_def activeTask_switchModel_tracker
        detectionTarget_switchModel_tracker)

text \<open>
  C4: a prompt whose lower-cased, trimmed form contains a face keyword selects the face
  task and clears the target filter, whatever the case of its letters (\<open>p'\<close> is \<open>p\<close> in
  another case) and the white space around it (\<open>l\<close> and \<open>r\<close>), and whatever else the
  prompt contains: the face keywords are tested first.
\<close>

theorem face_keyword_selects_face_task:
  assumes "list_all isWhiteSpace l" and "list_all isWhiteSpace r"
    and "toLowerCase p' = toLowerCase p"
    and "some_includes faceKeywords (trim (toLowerCase p))"
    and "inputPrompt s = l @ p' @ r"
  shows "activeTask (handlePromptSubmit_tracker created s) = Face
       \<and> detectionTarget (handlePromptSubmit_tracker created s) = []"
proof -
  have lp: "trim (toLowerCase (inputPrompt s)) = trim (toLowerCase p)"
    using assms(1,2,3,5) by (simp add: toLowerCase_append toLowerCase_spaces trim_padded)
  have ne: "inputPrompt s \<noteq> []"
  proof
    assume "inputPrompt s = []"
    then have "trim (toLowerCase p) = []" using lp by (simp add: toLowerCase_Nil trim_Nil)
    then show False using assms(4) some_includes_face_Nil by simp
  qed
  have r: "routePrompt (trim (toLowerCase (inputPrompt s))) = (Face, [])"
    using assms(4) lp by (simp add: routePrompt_def)
  show ?thesis
    using handlePromptSubmit_tracker_routes [OF ne, of created] r by simp
qed

theorem face_keyword_selects_face_task_witness:
  "activeTask (handlePromptSubmit_tracker (Some 1)
      (init_tracker\<lparr>inputPrompt := ''  HAND on my Face ''\<rparr>)) = Face
   \<and> detectionTarget (handlePromptSubmit_tracker (Some 1)
      (init_tracker\<lparr>inputPrompt := ''  HAND on my Face ''\<rparr>)) = []"
proof -
  have 1: "list_all isWhiteSpace ''  ''" by code_simp
  have 2: "list_all isWhiteSpace '' ''" by code_simp
  have 3: "toLowerCase ''HAND on my Face'' = toLowerCase ''hand on my face''" by code_simp
  have 4: "some_includes faceKeywords (trim (toLowerCase ''hand on my face''))" by code_simp
  have 5: "inputPrompt (init_tracker\<lparr>inputPrompt := ''  HAND on my Face ''\<rparr>)
             = ''  '' @ ''HAND on my Face'' @ '' ''" by simp
  show ?thesis by (rule face_keyword_selects_face_task [OF 1 2 3 4 5])
qed

text \<open>
  C5, as the code has it: the submission of a prompt that is not empty and contains no
  keyword sets the cell \<open>activeTask\<close> to the object task and the cell \<open>detectionTarget\<close>
  to the trimmed, lower-cased prompt; the submission of the empty prompt is ignored (the
  state, and so the task, the target and the error message, stay as they were). What
  the render loop does with the two cells is no part of the statement.
\<close>

theorem prompt_without_keyword_selects_object_task:
  "(inputPrompt s \<noteq> []
      \<and> \<not> some_includes faceKeywords (trim (toLowerCase (inputPrompt s)))
      \<and> \<not> some_includes handKeywords (trim (toLowerCase (inputPrompt s)))
      \<and> \<not> some_includes poseKeywords (trim (toLowerCase (inputPrompt s)))
    \<longrightarrow> activeTask (handlePromptSubmit_tracker created s) = Object
        \<and> detectionTarget (handlePromptSubmit_tracker created s)
            = trim (toLowerCase (inputPrompt s)))
   \<and> (inputPrompt s = [] \<longrightarrow> handlePromptSubmit_tracker created s = s)"
proof (intro conjI impI)
  assume a: "inputPrompt s \<noteq> []
      \<and> \<not> some_includes faceKeywords (trim (toLowerCase (inputPrompt s)))
      \<and> \<not> some_includes handKeywords (trim (toLowerCase (inputPrompt s)))
      \<and> \<not> some_includes poseKeywords (trim (toLowerCase (inputPrompt s)))"
  then have "routePrompt (trim (toLowerCase (inputPrompt s)))
               = (Object, trim (toLowerCase (inputPrompt s)))"
    by (simp add: routePrompt_def)
  then show "activeTask (handlePromptSubmit_tracker created s) = Object"
    and "detectionTarget (handlePromptSubmit_tracker created s)
           = trim (toLowerCase (inputPrompt s))"
    using a handlePromptSubmit_tracker_routes [of s created] by simp_all
next
  assume "inputPrompt s = []"
  then show "handlePromptSubmit_tracker created s = s"
    by (simp add: handlePromptSubmit_tracker_def)
qed

theorem prompt_without_keyword_selects_object_task_witness:
  "activeTask (handlePromptSubmit_tracker (Some 8)
      (run_tracker [Setup_tracker (Some 7), Typed_tracker ''face'',
         Submitted_tracker (Some 8), Typed_tracker '' Cup '']))
     = Object
   \<and> detectionTarget (handlePromptSubmit_tracker (Some 8)
      (run_tracker [Setup_tracker (Some 7), Typed_tracker ''face'',
         Submitted_tracker (Some 8), Typed_tracker '' Cup ''])) = ''cup''
   \<and> handlePromptSubmit_tracker None (init_tracker\<lparr>inputPrompt := []\<rparr>)
     = init_tracker\<lparr>inputPrompt := []\<rparr>"
proof -
  let ?s = "run_tracker [Setup_tracker (Some 7), Typed_tracker ''face'',
              Submitted_tracker (Some 8), Typed_tracker '' Cup '']"
  have p: "inputPrompt ?s = '' Cup ''" by (simp add: run_tracker_def)
  have lp: "trim (toLowerCase '' Cup '') = ''cup''" by code_simp
  have nf: "\<not> some_includes faceKeywords ''cup''" by code_simp
  have nh: "\<not> some_includes handKeywords ''cup''" by code_simp
  have np: "\<not> some_includes poseKeywords ''cup''" by code_simp
  show ?thesis
    using prompt_without_keyword_selects_object_task [of ?s "Some 8"]
          prompt_without_keyword_selects_object_task
            [of "init_tracker\<lparr>inputPrompt := []\<rparr>" None]
    by (simp add: p lp nf nh np)
qed

text \<open>
  The empty prompt contains no keyword, yet its submission neither selects the object
  task nor empties the filter: from the initial state the filter stays \<open>person\<close>, and
  after a prompt \<open>face\<close> the task stays the face task.
\<close>

theorem empty_prompt_is_ignored:
  "\<not> some_includes faceKeywords (trim (toLowerCase []))
   \<and> \<not> some_includes handKeywords (trim (toLowerCase []))
   \<and> \<not> some_includes poseKeywords (trim (toLowerCase []))
   \<and> detectionTarget (handlePromptSubmit_tracker None (init_tracker\<lparr>inputPrompt := []\<rparr>))
       = ''person''
   \<and> activeTask (handlePromptSubmit_tracker (Some 2)
        ((handlePromptSubmit_tracker (Some 1) (init_tracker\<lparr>inputPrompt := ''face''\<rparr>))
           \<lparr>inputPrompt := []\<rparr>)) = Face"
proof -
  have k: "some_includes faceKeywords (trim (toLowerCase ''face''))" by code_simp
  have ne: "inputPrompt (init_tracker\<lparr>inputPrompt := ''face''\<rparr>) \<noteq> []" by simp
  have r: "routePrompt (trim (toLowerCase ''face'')) = (Face, [])"
    using k by (simp add: routePrompt_def)
  have f: "activeTask (handlePromptSubmit_tracker (Some 1)
             (init_tracker\<lparr>inputPrompt := ''face''\<rparr>)) = Face"
    using handlePromptSubmit_tracker_routes [OF ne, of "Some 1"] r by simp
  have n: "\<not> some_includes faceKeywords (trim (toLowerCase []))"
     "\<not> some_includes handKeywords (trim (toLowerCase []))"
     "\<not> some_includes poseKeywords (trim (toLowerCase []))"
    by code_simp+
  show ?thesis
    using f n by (simp add: handlePromptSubmit_tracker_def init_tracker_def)
qed

section \<open>Model handles\<close>

lemma close_opts_held:
  "close_opt a @ close_opt b @ close_opt c @ close_opt d
     = map Close (concat (map (\<lambda>r. case r of None \<Rightarrow> [] | Some h \<Rightarrow> [h]) [a, b, c, d]))"
  by (simp add: close_opt_def split: option.splits)

lemma heldModels_switchModel_begin_tracker:
  "heldModels (switchModel_begin_tracker task s) = []"
  by (simp add: heldModels_def switchModel_begin_tracker_def)

lemma trace_switchModel_begin_tracker:
  "trace (switchModel_begin_tracker task s)
     = trace s @ map Close (heldModels s) @ [CreateFromOptions (modelKind_tracker task)]"
  using close_opts_held
          [of "objectDetector s" "faceDetector s" "handLandmarker s" "poseLandmarker s"]
  by (simp add: heldModels_def switchModel_begin_tracker_def)

lemma heldModels_switchModel_tracker:
  "heldModels (switchModel_tracker task created s)
     = (case created of None \<Rightarrow> [] | Some h \<Rightarrow> [h])"
  by (cases task; cases created)
     (simp_all add: heldModels_def switchModel_tracker_def switchModel_end_tracker_def
        switchModel_begin_tracker_def)

lemma heldModels_handlePromptSubmit_tracker:
  "length (heldModels s) \<le> 1 \<Longrightarrow>
   length (heldModels (handlePromptSubmit_tracker created s)) \<le> 1"
proof -
  assume a: "length (heldModels s) \<le> 1"
  have upd: "\<And>t f g. heldModels (t\<lparr>isLoading := f, loadingMessage := g\<rparr>) = heldModels t"
    by (simp add: heldModels_def)
  have upd1: "\<And>t f. heldModels (t\<lparr>isLoading := f\<rparr>) = heldModels t"
    by (simp add: heldModels_def)
  have upd2: "\<And>t f. heldModels (t\<lparr>detectionTarget := f\<rparr>) = heldModels t"
    by (simp add: heldModels_def)
  show ?thesis
    using a
    by (cases created)
       (simp_all add: handlePromptSubmit_tracker_def Let_def upd upd1 upd2
          heldModels_switchModel_tracker)
qed

lemma heldModels_renderLoop_tracker:
  "heldModels (renderLoop_tracker hc pc frame s) = heldModels s"
  by (simp add: heldModels_def renderLoop_tracker_def Let_def split: option.splits)

lemma heldModels_stateCells_tracker: "heldModels (stateCells_tracker c s) = heldModels s"
  by (simp add: heldModels_def stateCells_tracker_def)

lemma heldModels_step_tracker:
  "length (heldModels s) \<le> 1 \<Longrightarrow> length (heldModels (step_tracker s e)) \<le> 1"
proof (cases e)
  case (Setup_tracker created)
  then show ?thesis by (cases created) (simp_all add: heldModels_switchModel_tracker)
next
  case (Typed_tracker p)
  assume "length (heldModels s) \<le> 1"
  then show ?thesis using Typed_tracker by (simp add: heldModels_def)
next
  case (Submitted_tracker created)
  assume "length (heldModels s) \<le> 1"
  then show ?thesis
    using Submitted_tracker heldModels_handlePromptSubmit_tracker by simp
next
  case (Rendered_tracker hc pc frame)
  assume "length (heldModels s) \<le> 1"
  then show ?thesis
    using Rendered_tracker
    by (simp add: heldModels_renderLoop_tracker heldModels_stateCells_tracker)
qed

lemma heldModels_run_tracker: "length (heldModels (run_tracker evs)) \<le> 1"
proof (induction evs rule: rev_induct)
  case Nil
  show ?case by (simp add: run_tracker_def init_tracker_def heldModels_def)
next
  case (snoc e evs)
  then show ?case using heldModels_step_tracker by (simp add: run_tracker_def)
qed

lemma heldModels_switchModel_begin:
  "no_landmarkers s \<Longrightarrow> heldModels (switchModel_begin task s) = []"
  by (simp add: heldModels_def switchModel_begin_def no_landmarkers_def)

lemma trace_switchModel_begin:
  "no_landmarkers s \<Longrightarrow>
   trace (switchModel_begin task s)
     = trace s @ map Close (heldModels s) @ [CreateFromOptions (modelKind task)]"
  using close_opts_held [of "objectDetector s" "faceDetector s" None None]
  by (simp add: heldModels_def switchModel_begin_def no_landmarkers_def close_opt_def)

lemma heldModels_switchModel:
  "no_landmarkers s \<Longrightarrow>
   heldModels (switchModel task created s) = (case created of None \<Rightarrow> [] | Some h \<Rightarrow> [h])"
  by (cases task; cases created)
     (simp_all add: heldModels_def switchModel_def switchModel_end_def switchModel_begin_def
        no_landmarkers_def)

lemma no_landmarkers_switchModel:
  "no_landmarkers s \<Longrightarrow> no_landmarkers (switchModel task created s)"
  by (cases task; cases created)
     (simp_all add: switchModel_def switchModel_end_def switchModel_begin_def
        no_landmarkers_def)

lemma handles_renderLoop:
  "objectDetector (renderLoop frame s) = objectDetector s
   \<and> faceDetector (renderLoop frame s) = faceDetector s
   \<and> handLandmarker (renderLoop frame s) = handLandmarker s
   \<and> poseLandmarker (renderLoop frame s) = poseLandmarker s"
  by (simp add: renderLoop_def Let_def analyzeAllFaces_start_def split: option.splits)

lemma handles_analyzeAllFaces_settle:
  "objectDetector (analyzeAllFaces_settle cloud ds s) = objectDetector s
   \<and> faceDetector (analyzeAllFaces_settle cloud ds s) = faceDetector s
   \<and> handLandmarker (analyzeAllFaces_settle cloud ds s) = handLandmarker s
   \<and> poseLandmarker (analyzeAllFaces_settle cloud ds s) = poseLandmarker s"
  by (simp add: analyzeAllFaces_settle_def split: sum.splits)

lemma handles_handlePromptSubmit:
  "objectDetector (handlePromptSubmit s) = objectDetector s
   \<and> faceDetector (handlePromptSubmit s) = faceDetector s
   \<and> handLandmarker (handlePromptSubmit s) = handLandmarker s
   \<and> poseLandmarker (handlePromptSubmit s) = poseLandmarker s"
  by (simp add: handlePromptSubmit_def split: DetectionMode.splits)

lemma one_model_switchModel: "no_landmarkers s \<Longrightarrow> one_model (switchModel task created s)"
  by (cases created) (simp_all add: one_model_def heldModels_switchModel no_landmarkers_switchModel)

lemma one_model_handleModeChange:
  assumes "one_model s"
  shows "one_model (handleModeChange mode created s)"
proof (cases "mode = detectionMode s")
  case True
  then show ?thesis using assms by (simp add: handleModeChange_def)
next
  case False
  have nl: "no_landmarkers s" using assms by (simp add: one_model_def)
  show ?thesis
  proof (cases "mode = Object_mode")
    case True
    have "no_landmarkers (s\<lparr>detectionMode := mode, personAnalysisResults := None,
            errorMessage := [], inputPrompt := ''cup'', detectionTarget := ''cup''\<rparr>)"
      using nl by (simp add: no_landmarkers_def)
    then show ?thesis
      using False True one_model_switchModel by (simp add: handleModeChange_def Let_def)
  next
    case notobj: False
    have "no_landmarkers (s\<lparr>detectionMode := mode, personAnalysisResults := None,
            errorMessage := [], inputPrompt := ''age and gender'', detectionTarget := []\<rparr>)"
      using nl by (simp add: no_landmarkers_def)
    then show ?thesis
      using False notobj one_model_switchModel by (simp add: handleModeChange_def Let_def)
  qed
qed

lemma one_model_step: "one_model s \<Longrightarrow> one_model (step_analysis s e)"
proof (cases e)
  case (Setup created)
  assume "one_model s"
  then show ?thesis using Setup one_model_switchModel by (simp add: one_model_def)
next
  case (Typed p)
  assume "one_model s"
  then show ?thesis using Typed by (simp add: one_model_def no_landmarkers_def heldModels_def)
next
  case Submitted
  assume "one_model s"
  then show ?thesis
    using Submitted handles_handlePromptSubmit [of s]
    by (simp add: one_model_def no_landmarkers_def heldModels_def)
next
  case (ModeChanged mode created)
  assume "one_model s"
  then show ?thesis using ModeChanged one_model_handleModeChange by simp
next
  case (Rendered frame)
  assume "one_model s"
  then show ?thesis
    using Rendered handles_renderLoop [of frame "stateCells init_analysis s"]
    by (simp add: one_model_def no_landmarkers_def heldModels_def stateCells_def)
next
  case (Settled cloud ds)
  assume "one_model s"
  then show ?thesis
    using Settled handles_analyzeAllFaces_settle [of cloud ds s]
    by (simp add: one_model_def no_landmarkers_def heldModels_def)
qed

lemma one_model_run: "one_model (run_analysis evs)"
proof (induction evs rule: rev_induct)
  case Nil
  show ?case
    by (simp add: run_analysis_def init_analysis_def one_model_def no_landmarkers_def
          heldModels_def)
next
  case (snoc e evs)
  then show ?case using one_model_step by (simp add: run_analysis_def)
qed

text \<open>
  C8: at most one inference model is held at any time. In every run of either version
  the state holds at most one model; a switch of the model first closes every handle
  held, in the order of the refs, and sets the refs to null, so that no model is held
  while the new one is constructed; and after the switch the model constructed is the
  only one held, or none is when the construction failed.
\<close>

theorem at_most_one_model_held:
  "length (heldModels (run_tracker evs)) \<le> 1
   \<and> heldModels (switchModel_begin_tracker task s) = []
   \<and> trace (switchModel_begin_tracker task s)
       = trace s @ map Close (heldModels s) @ [CreateFromOptions (modelKind_tracker task)]
   \<and> heldModels (switchModel_tracker task created s)
       = (case created of None \<Rightarrow> [] | Some h \<Rightarrow> [h])
   \<and> length (heldModels (run_analysis evs')) \<le> 1
   \<and> heldModels (switchModel_begin mode (run_analysis evs')) = []
   \<and> trace (switchModel_begin mode (run_analysis evs'))
       = trace (run_analysis evs') @ map Close (heldModels (run_analysis evs'))
         @ [CreateFromOptions (modelKind mode)]
   \<and> heldModels (switchModel mode created' (run_analysis evs'))
       = (case created' of None \<Rightarrow> [] | Some h \<Rightarrow> [h])"
proof -
  have nl: "no_landmarkers (run_analysis evs')"
    using one_model_run [of evs'] by (simp add: one_model_def)
  have le: "length (heldModels (run_analysis evs')) \<le> 1"
    using one_model_run [of evs'] by (simp add: one_model_def)
  show ?thesis
    using heldModels_run_tracker [of evs] heldModels_switchModel_begin_tracker [of task s]
      trace_switchModel_begin_tracker [of task s]
      heldModels_switchModel_tracker [of task created s]
      le heldModels_switchModel_begin [OF nl, of mode] trace_switchModel_begin [OF nl, of mode]
      heldModels_switchModel [OF nl, of mode created']
    by simp
qed

theorem at_most_one_model_held_witness:
  "heldModels (run_tracker [Setup_tracker (Some 7), Typed_tracker ''face'',
      Submitted_tracker (Some 8)]) = [8]
   \<and> trace (run_tracker [Setup_tracker (Some 7), Typed_tracker ''face'',
      Submitted_tracker (Some 8)])
     = [CreateFromOptions ObjectDetector, Close 7, CreateFromOptions FaceDetector]
   \<and> heldModels (run_analysis [Setup (Some 7), ModeChanged Object_mode None]) = []
   \<and> trace (switchModel_begin Person_analysis (run_analysis [Setup (Some 7)]))
     = [CreateFromOptions FaceDetector, Close 7, CreateFromOptions FaceDetector]"
proof -
  have k: "some_includes faceKeywords (trim (toLowerCase ''face''))" by code_simp
  have r: "routePrompt (trim (toLowerCase ''face'')) = (Face, [])"
    using k by (simp add: routePrompt_def)
  have s1: "run_tracker [Setup_tracker (Some 7)]
              = init_tracker\<lparr>isLoading := False,
                  loadingMessage := ''Loading AI vision model...'',
                  trace := [CreateFromOptions ObjectDetector], objectDetector := Some 7\<rparr>"
    by (simp add: run_tracker_def init_tracker_def switchModel_tracker_def
          switchModel_begin_tracker_def switchModel_end_tracker_def close_opt_def
          modelKind_tracker_def)
  have s3: "run_tracker [Setup_tracker (Some 7), Typed_tracker ''face'',
              Submitted_tracker (Some 8)]
            = handlePromptSubmit_tracker (Some 8)
                (run_tracker [Setup_tracker (Some 7)]\<lparr>inputPrompt := ''face''\<rparr>)"
    by (simp add: run_tracker_def)
  have a1: "run_analysis [Setup (Some 7)]
              = init_analysis\<lparr>isLoading := False,
                  loadingMessage := ''Loading AI vision model...'',
                  trace := [CreateFromOptions FaceDetector], faceDetector := Some 7\<rparr>"
    by (simp add: run_analysis_def init_analysis_def switchModel_def
          switchModel_begin_def switchModel_end_def close_opt_def modelKind_def)
  have a2: "run_analysis [Setup (Some 7), ModeChanged Object_mode None]
              = handleModeChange Object_mode None (run_analysis [Setup (Some 7)])"
    by (simp add: run_analysis_def)
  have h1: "heldModels (run_analysis [Setup (Some 7)]) = [7]"
    by (simp add: a1 heldModels_def init_analysis_def)
  have h2: "heldModels (run_tracker [Setup_tracker (Some 7)]\<lparr>inputPrompt := ''face''\<rparr>) = [7]"
    by (simp add: s1 heldModels_def init_tracker_def)
  have t: "heldModels (run_tracker [Setup_tracker (Some 7), Typed_tracker ''face'',
      Submitted_tracker (Some 8)]) = [8]
   \<and> trace (run_tracker [Setup_tracker (Some 7), Typed_tracker ''face'',
      Submitted_tracker (Some 8)])
     = [CreateFromOptions ObjectDetector, Close 7, CreateFromOptions FaceDetector]"
    using at_most_one_model_held
      [of "[]" Face "run_tracker [Setup_tracker (Some 7)]
              \<lparr>inputPrompt := ''face'', isLoading := True,
                loadingMessage := ''Updating tracker...'', detectionTarget := [],
                activeTask := Face\<rparr>" "Some 8" "[]" Object_mode None]
    apply (simp add: s3 handlePromptSubmit_tracker_def Let_def r)
    apply (simp add: s1 init_tracker_def heldModels_def switchModel_tracker_def
        switchModel_end_tracker_def modelKind_tracker_def)
    done
  have a: "heldModels (run_analysis [Setup (Some 7), ModeChanged Object_mode None]) = []
   \<and> trace (switchModel_begin Person_analysis (run_analysis [Setup (Some 7)]))
     = [CreateFromOptions FaceDetector, Close 7, CreateFromOptions FaceDetector]"
    using at_most_one_model_held
       [of "[]" Face init_tracker None "[Setup (Some 7), ModeChanged Object_mode None]"
           Object_mode None]
       at_most_one_model_held
       [of "[]" Face init_tracker None "[Setup (Some 7)]" Person_analysis None]
    apply (simp add: h1 modelKind_def)
    apply (simp add: a1 a2 init_analysis_def handleModeChange_def Let_def heldModels_def
        switchModel_def switchModel_end_def switchModel_begin_def)
    done
  show ?thesis using t a by simp
qed

section \<open>The render loop\<close>

lemma inferenceCalls_append:
  "inferenceCalls (xs @ ys) = inferenceCalls xs @ inferenceCalls ys"
  by (induction xs rule: inferenceCalls.induct) simp_all

lemma lastVideoTime_renderLoop:
  "lastVideoTime (renderLoop frame s) = video_currentTime frame"
  by (simp add: renderLoop_def Let_def analyzeAllFaces_start_def split: option.splits)

lemma lastVideoTime_renderLoop_tracker:
  "lastVideoTime (renderLoop_tracker hc pc frame s) = video_currentTime frame"
  by (simp add: renderLoop_tracker_def Let_def split: option.splits)

lemma renderLoop_same_time:
  "video_currentTime frame = lastVideoTime s \<Longrightarrow>
   renderLoop frame s = s\<lparr>trace := trace s @ [RequestAnimationFrame]\<rparr>"
  by (simp add: renderLoop_def)

lemma renderLoop_tracker_same_time:
  "video_currentTime frame = lastVideoTime s \<Longrightarrow>
   renderLoop_tracker hc pc frame s = s\<lparr>trace := trace s @ [RequestAnimationFrame]\<rparr>"
  by (simp add: renderLoop_tracker_def)

text \<open>
  C6: when the video reports the same timestamp at two consecutive animation-frame
  callbacks, the second callback only schedules the next one: it adds no call of
  \<open>detectForVideo\<close> to the calls made so far, in either version of the render loop.
\<close>

theorem repeated_timestamp_issues_no_inference:
  assumes "video_currentTime f2 = video_currentTime f1"
  shows "renderLoop f2 (renderLoop f1 s)
           = (renderLoop f1 s)\<lparr>trace := trace (renderLoop f1 s) @ [RequestAnimationFrame]\<rparr>
       \<and> inferenceCalls (trace (renderLoop f2 (renderLoop f1 s)))
           = inferenceCalls (trace (renderLoop f1 s))
       \<and> renderLoop_tracker hc pc f2 (renderLoop_tracker hc pc f1 t)
           = (renderLoop_tracker hc pc f1 t)
               \<lparr>trace := trace (renderLoop_tracker hc pc f1 t) @ [RequestAnimationFrame]\<rparr>
       \<and> inferenceCalls (trace (renderLoop_tracker hc pc f2 (renderLoop_tracker hc pc f1 t)))
           = inferenceCalls (trace (renderLoop_tracker hc pc f1 t))"
proof -
  have a: "video_currentTime f2 = lastVideoTime (renderLoop f1 s)"
    using assms by (simp add: lastVideoTime_renderLoop)
  have b: "video_currentTime f2 = lastVideoTime (renderLoop_tracker hc pc f1 t)"
    using assms by (simp add: lastVideoTime_renderLoop_tracker)
  show ?thesis
    using renderLoop_same_time [OF a] renderLoop_tracker_same_time [OF b]
    by (simp add: inferenceCalls_append)
qed

theorem repeated_timestamp_issues_no_inference_witness:
  "inferenceCalls (trace (renderLoop
       \<lparr>video_currentTime = 2, performance_now = 140, detector_result = Detections [],
         canvas_width = 640, canvas_height = 480\<rparr>
     (renderLoop
       \<lparr>video_currentTime = 2, performance_now = 120, detector_result = Detections [],
         canvas_width = 640, canvas_height = 480\<rparr>
       (init_analysis\<lparr>faceDetector := Some 7\<rparr>)))) = [(7, 120)]
   \<and> inferenceCalls (trace (renderLoop_tracker [] []
       \<lparr>video_currentTime = 2, performance_now = 140, detector_result = Detections [],
         canvas_width = 640, canvas_height = 480\<rparr>
     (renderLoop_tracker [] []
       \<lparr>video_currentTime = 2, performance_now = 120, detector_result = Detections [],
         canvas_width = 640, canvas_height = 480\<rparr>
       (init_tracker\<lparr>objectDetector := Some 7\<rparr>)))) = [(7, 120)]"
proof -
  have a: "inferenceCalls (trace (renderLoop
       \<lparr>video_currentTime = 2, performance_now = 120, detector_result = Detections [],
         canvas_width = 640, canvas_height = 480\<rparr>
       (init_analysis\<lparr>faceDetector := Some 7\<rparr>))) = [(7, 120)]"
    by (simp add: renderLoop_def Let_def init_analysis_def activeDetector_def
          drawResults_def detections_of_def drawFaceDetections_def faceAttachments_def
          inferenceCalls_append)
  have b: "inferenceCalls (trace (renderLoop_tracker [] []
       \<lparr>video_currentTime = 2, performance_now = 120, detector_result = Detections [],
         canvas_width = 640, canvas_height = 480\<rparr>
       (init_tracker\<lparr>objectDetector := Some 7\<rparr>))) = [(7, 120)]"
    by (simp add: renderLoop_tracker_def Let_def init_tracker_def activeDetector_tracker_def
          drawResults_tracker_def inferenceCalls_append)
  have eq: "video_currentTime
       \<lparr>video_currentTime = 2, performance_now = 140, detector_result = Detections [],
         canvas_width = 640, canvas_height = 480\<rparr>
     = video_currentTime
       \<lparr>video_currentTime = 2, performance_now = 120, detector_result = Detections [],
         canvas_width = 640, canvas_height = 480\<rparr>"
    by simp
  note t = repeated_timestamp_issues_no_inference [OF eq,
            of "init_analysis\<lparr>faceDetector := Some 7\<rparr>" "[]" "[]"
               "init_tracker\<lparr>objectDetector := Some 7\<rparr>"]
  show ?thesis
    using t [THEN conjunct2, THEN conjunct1]
          t [THEN conjunct2, THEN conjunct2, THEN conjunct2]
    unfolding a b by (rule conjI)
qed

section \<open>The analysis batch\<close>

lemma Promise_all_rejects: "Inl e \<in> set ps \<Longrightarrow> \<exists>e'. Promise_all ps = Inl e'"
  by (induction ps) (auto split: sum.splits)

lemma analyzeFace_rejected_in_batch:
  assumes "i < length detections" and "boundingBox (detections ! i) \<noteq> None"
    and "cloud i = Rejected"
  shows "Inl () \<in> set (map (analyzeFace cloud) (enumerate 0 detections))"
proof -
  have "(i, detections ! i) \<in> set (enumerate 0 detections)"
    using assms(1) by (simp add: in_set_enumerate_eq)
  moreover have "analyzeFace cloud (i, detections ! i) = Inl ()"
    using assms(2,3) by (auto simp: analyzeFace_def)
  ultimately show ?thesis by force
qed

text \<open>
  C3: when the request for one face of a batch rejects, the batch is given up: the state
  after \<open>analyzeAllFaces\<close> is the state before it with one more line on the console and
  the busy flag reset; so the stored results are the previous ones, and the message shown
  to the user is untouched.
\<close>

theorem rejected_request_aborts_batch:
  assumes "\<not> analyzeAllFaces_skips detections videoPresent s"
    and "i < length detections" and "boundingBox (detections ! i) \<noteq> None"
    and "cloud i = Rejected"
  shows "analyzeAllFaces cloud detections videoPresent s
           = s\<lparr>trace := trace s @ [ConsoleError ''Failed to analyze faces''],
               isAnalyzing := False\<rparr>
       \<and> personAnalysisResults (analyzeAllFaces cloud detections videoPresent s)
           = personAnalysisResults s
       \<and> errorMessage (analyzeAllFaces cloud detections videoPresent s) = errorMessage s
       \<and> isAnalyzing (analyzeAllFaces cloud detections videoPresent s) = False"
proof -
  obtain e where "Promise_all (map (analyzeFace cloud) (enumerate 0 detections)) = Inl e"
    using Promise_all_rejects [OF analyzeFace_rejected_in_batch [of i detections cloud]]
      assms(2,3,4) by blast
  then have "analyzeAllFaces cloud detections videoPresent s
           = s\<lparr>trace := trace s @ [ConsoleError ''Failed to analyze faces''],
               isAnalyzing := False\<rparr>"
    using assms(1)
    by (simp add: analyzeAllFaces_def analyzeAllFaces_settle_def analyzeAllFaces_start_def)
  then show ?thesis by simp
qed

theorem rejected_request_aborts_batch_witness:
  "personAnalysisResults (analyzeAllFaces
      (\<lambda>i. if i = 0 then Resolved ''Gender: Female, Age: 25-30'' else Rejected)
      [\<lparr>boundingBox = Some \<lparr>originX = 10, originY = 10, width = 100, height = 50\<rparr>,
         categories = []\<rparr>,
       \<lparr>boundingBox = Some \<lparr>originX = 300, originY = 20, width = 80, height = 80\<rparr>,
         categories = []\<rparr>]
      True
      (init_analysis\<lparr>personAnalysisResults :=
         Some [\<lparr>bbox = \<lparr>originX = 12, originY = 9, width = 100, height = 50\<rparr>,
                 result_text = ''Gender: Female''\<rparr>]\<rparr>))
     = Some [\<lparr>bbox = \<lparr>originX = 12, originY = 9, width = 100, height = 50\<rparr>,
              result_text = ''Gender: Female''\<rparr>]
   \<and> trace (analyzeAllFaces
      (\<lambda>i. if i = 0 then Resolved ''Gender: Female, Age: 25-30'' else Rejected)
      [\<lparr>boundingBox = Some \<lparr>originX = 10, originY = 10, width = 100, height = 50\<rparr>,
         categories = []\<rparr>,
       \<lparr>boundingBox = Some \<lparr>originX = 300, originY = 20, width = 80, height = 80\<rparr>,
         categories = []\<rparr>]
      True
      (init_analysis\<lparr>personAnalysisResults :=
         Some [\<lparr>bbox = \<lparr>originX = 12, originY = 9, width = 100, height = 50\<rparr>,
                 result_text = ''Gender: Female''\<rparr>]\<rparr>))
     = [ConsoleError ''Failed to analyze faces'']"
  using rejected_request_aborts_batch
    [of "[\<lparr>boundingBox = Some \<lparr>originX = 10, originY = 10, width = 100, height = 50\<rparr>,
            categories = []\<rparr>,
          \<lparr>boundingBox = Some \<lparr>originX = 300, originY = 20, width = 80, height = 80\<rparr>,
            categories = []\<rparr>]"
        True
        "init_analysis\<lparr>personAnalysisResults :=
           Some [\<lparr>bbox = \<lparr>originX = 12, originY = 9, width = 100, height = 50\<rparr>,
                   result_text = ''Gender: Female''\<rparr>]\<rparr>"
        1
        "\<lambda>i. if i = 0 then Resolved ''Gender: Female, Age: 25-30'' else Rejected"]
  by (simp add: analyzeAllFaces_skips_def init_analysis_def)

section \<open>Matching analysis results to detections\<close>

lemma scanDetections_append:
  "scanDetections p (xs @ ys) i best
     = scanDetections p ys (i + length xs) (scanDetections p xs i best)"
  by (induction xs arbitrary: i best) (auto simp: Let_def split: option.splits)

lemma scanDetections_step:
  "scanDetections p (x # xs) i best =
     scanDetections p xs (Suc i)
       (case detDistance p x of
          None \<Rightarrow> best
        | Some dx \<Rightarrow>
            (case best of
               None \<Rightarrow> Some (x, i, dx)
             | Some (bd, bi, bm) \<Rightarrow> if dx < bm then Some (x, i, dx) else best))"
  by (auto simp: detDistance_def Let_def split: option.splits)

lemma scanDetections_prefix:
  "farther m best \<Longrightarrow> \<forall>x\<in>set xs. \<forall>dx. detDistance p x = Some dx \<longrightarrow> m < dx \<Longrightarrow>
   farther m (scanDetections p xs i best)"
proof (induction xs arbitrary: i best)
  case Nil
  then show ?case by simp
next
  case (Cons x xs)
  have "farther m (case detDistance p x of
          None \<Rightarrow> best
        | Some dx \<Rightarrow>
            (case best of
               None \<Rightarrow> Some (x, i, dx)
             | Some (bd, bi, bm) \<Rightarrow> if dx < bm then Some (x, i, dx) else best))"
    using Cons.prems by (auto simp: farther_def split: option.splits)
  then show ?case
    using Cons.IH Cons.prems(2) by (simp only: scanDetections_step) simp
qed

lemma scanDetections_hit:
  "farther m best \<Longrightarrow> detDistance p x = Some m \<Longrightarrow>
   scanDetections p [x] i best = Some (x, i, m)"
  by (auto simp: scanDetections_step farther_def split: option.splits simp del: scanDetections.simps(2))

lemma scanDetections_suffix:
  "\<forall>x\<in>set ys. \<forall>dx. detDistance p x = Some dx \<longrightarrow> m \<le> dx \<Longrightarrow>
   scanDetections p ys i (Some (d, k, m)) = Some (d, k, m)"
proof (induction ys arbitrary: i)
  case Nil
  then show ?case by simp
next
  case (Cons y ys)
  then show ?case
    by (simp only: scanDetections_step) (auto split: option.splits)
qed

lemma scanDetections_none:
  "\<forall>x\<in>set xs. boundingBox (snd x) = None \<Longrightarrow> scanDetections p xs i best = best"
  by (induction xs arbitrary: i) auto

lemma scanDetections_nearest:
  assumes "nearestAt p pool k m"
  shows "scanDetections p pool 0 None = Some (pool ! k, k, m)"
proof -
  have k: "k < length pool" and dk: "detDistance p (pool ! k) = Some m"
    using assms by (simp_all add: nearestAt_def)
  have split: "pool = take k pool @ [pool ! k] @ drop (Suc k) pool"
    using k by (simp add: id_take_nth_drop)
  have before: "\<forall>x\<in>set (take k pool). \<forall>dx. detDistance p x = Some dx \<longrightarrow> m < dx"
  proof (intro ballI allI impI)
    fix x dx assume "x \<in> set (take k pool)" and dx: "detDistance p x = Some dx"
    then obtain j where "j < k" "j < length pool" "x = pool ! j"
      using k by (auto simp: in_set_conv_nth)
    then show "m < dx" using assms dx by (auto simp: nearestAt_def)
  qed
  have after: "\<forall>x\<in>set (drop (Suc k) pool). \<forall>dx. detDistance p x = Some dx \<longrightarrow> m \<le> dx"
  proof (intro ballI allI impI)
    fix x dx assume "x \<in> set (drop (Suc k) pool)" and dx: "detDistance p x = Some dx"
    then have "x \<in> set pool" by (meson in_set_dropD)
    then obtain j where "j < length pool" "x = pool ! j" by (auto simp: in_set_conv_nth)
    then show "m \<le> dx" using assms dx by (auto simp: nearestAt_def)
  qed
  have 1: "farther m (scanDetections p (take k pool) 0 None)"
    using scanDetections_prefix [OF _ before] by (simp add: farther_def)
  have 2: "scanDetections p [pool ! k] k (scanDetections p (take k pool) 0 None)
             = Some (pool ! k, k, m)"
    using scanDetections_hit [OF 1 dk] .
  have "scanDetections p pool 0 None
          = scanDetections p (drop (Suc k) pool) (Suc k)
              (scanDetections p [pool ! k] k (scanDetections p (take k pool) 0 None))"
    using k by (subst split) (simp only: scanDetections_append, simp add: min_def)
  then show ?thesis using 2 scanDetections_suffix [OF after] by simp
qed

lemma nearestAt_exists:
  assumes "\<exists>x\<in>set pool. boundingBox (snd x) \<noteq> None"
  shows "\<exists>k m. nearestAt p pool k m"
proof -
  define D where "D = {dx. \<exists>j<length pool. detDistance p (pool ! j) = Some dx}"
  have "D \<subseteq> the ` ((\<lambda>j. detDistance p (pool ! j)) ` {..<length pool})"
    by (force simp: D_def image_iff)
  then have fin: "finite D" by (rule finite_subset) simp
  obtain x where "x \<in> set pool" "boundingBox (snd x) \<noteq> None" using assms by blast
  then obtain j b where "j < length pool" "boundingBox (snd (pool ! j)) = Some b"
    by (auto simp: in_set_conv_nth)
  then have ne: "D \<noteq> {}" by (auto simp: D_def detDistance_def)
  define m where "m = Min D"
  have mD: "m \<in> D" using fin ne by (simp add: m_def)
  have mle: "\<And>dx. dx \<in> D \<Longrightarrow> m \<le> dx" using fin by (simp add: m_def)
  define k where "k = (LEAST j. j < length pool \<and> detDistance p (pool ! j) = Some m)"
  have ex: "\<exists>j. j < length pool \<and> detDistance p (pool ! j) = Some m"
    using mD by (auto simp: D_def)
  have kp: "k < length pool \<and> detDistance p (pool ! k) = Some m"
    unfolding k_def using ex by (rule LeastI_ex)
  have kl: "\<And>j. j < length pool \<Longrightarrow> detDistance p (pool ! j) = Some m \<Longrightarrow> k \<le> j"
    unfolding k_def by (rule Least_le) simp
  have "nearestAt p pool k m"
    unfolding nearestAt_def
  proof (intro conjI ballI allI impI)
    show "k < length pool" using kp by simp
    show "detDistance p (pool ! k) = Some m" using kp by simp
  next
    fix j dx assume j: "j \<in> {..<length pool}" and dx: "detDistance p (pool ! j) = Some dx"
    then have "dx \<in> D" by (auto simp: D_def)
    then show "m \<le> dx" using mle by simp
  next
    fix j dx assume j: "j \<in> {..<length pool}" and dx: "detDistance p (pool ! j) = Some dx"
      and jk: "j < k"
    then have "dx \<in> D" by (auto simp: D_def)
    then have "m \<le> dx" using mle by simp
    moreover have "dx \<noteq> m" using kl [of j] j dx jk by auto
    ultimately show "m < dx" by simp
  qed
  then show ?thesis by blast
qed

lemma scanDetections_index:
  "scanDetections p ds i best = Some (d, k, m) \<Longrightarrow>
   best = Some (d, k, m) \<or> (i \<le> k \<and> k - i < length ds \<and> d = ds ! (k - i))"
proof (induction ds arbitrary: i best)
  case Nil
  then show ?case by simp
next
  case (Cons x xs)
  define best' where "best' = (case detDistance p x of
          None \<Rightarrow> best
        | Some dx \<Rightarrow>
            (case best of
               None \<Rightarrow> Some (x, i, dx)
             | Some (bd, bi, bm) \<Rightarrow> if dx < bm then Some (x, i, dx) else best))"
  have "scanDetections p xs (Suc i) best' = Some (d, k, m)"
    using Cons.prems unfolding best'_def by (simp only: scanDetections_step)
  then have "best' = Some (d, k, m)
           \<or> (Suc i \<le> k \<and> k - Suc i < length xs \<and> d = xs ! (k - Suc i))"
    by (rule Cons.IH)
  moreover have "best' = Some (d, k, m) \<Longrightarrow> best = Some (d, k, m) \<or> (k = i \<and> d = x)"
    unfolding best'_def by (auto split: option.splits if_splits)
  ultimately show ?case by (auto simp: nth_Cons')
qed

lemma scanDetections_bbox:
  "scanDetections p ds i best = Some (d, k, m) \<Longrightarrow>
   best = Some (d, k, m) \<or> detDistance p d = Some m"
proof (induction ds arbitrary: i best)
  case Nil
  then show ?case by simp
next
  case (Cons x xs)
  define best' where "best' = (case detDistance p x of
          None \<Rightarrow> best
        | Some dx \<Rightarrow>
            (case best of
               None \<Rightarrow> Some (x, i, dx)
             | Some (bd, bi, bm) \<Rightarrow> if dx < bm then Some (x, i, dx) else best))"
  have "scanDetections p xs (Suc i) best' = Some (d, k, m)"
    using Cons.prems unfolding best'_def by (simp only: scanDetections_step)
  then have "best' = Some (d, k, m) \<or> detDistance p d = Some m"
    by (rule Cons.IH)
  moreover have "best' = Some (d, k, m) \<Longrightarrow> best = Some (d, k, m) \<or> detDistance p d = Some m"
    unfolding best'_def by (auto split: option.splits if_splits)
  ultimately show ?case by auto
qed

text \<open>The best match of a scan has a bounding box.\<close>

lemma scanDetections_has_box:
  assumes "scanDetections p pool 0 None = Some (d, k, m)"
  shows "\<exists>b. boundingBox (snd d) = Some b \<and> m = centerDistance p (boxCenter b)"
  using scanDetections_bbox [OF assms] by (auto simp: detDistance_def)

lemma findBestMatch_index:
  assumes "findBestMatch result pool = Some (d, k)"
  shows "k < length pool \<and> d = pool ! k"
proof -
  obtain m where "scanDetections (boxCenter (bbox result)) pool 0 None = Some (d, k, m)"
    using assms by (auto simp: findBestMatch_def split: option.splits if_splits)
  then show ?thesis using scanDetections_index by fastforce
qed

lemma findBestMatch_nearest:
  assumes "nearestAt (boxCenter (bbox result)) pool k m"
    and "boundingBox (snd (pool ! k)) = Some b"
  shows "findBestMatch result pool = (if m < width b * 0.75 then Some (pool ! k, k) else None)"
  using scanDetections_nearest [OF assms(1)] assms(2) by (simp add: findBestMatch_def)

lemma findBestMatch_no_box:
  "\<forall>x\<in>set pool. boundingBox (snd x) = None \<Longrightarrow> findBestMatch result pool = None"
  by (simp add: findBestMatch_def scanDetections_none)

text \<open>
  C1: in the matching pass each result is matched against the pool of detections not
  yet claimed. When the pool has a nearest detection (at index \<open>k\<close>, at distance \<open>m\<close>
  from the centre of the result's box; among several at the same distance, the first),
  the result attaches to it if \<open>m\<close> is strictly below 0.75 times the width of its box,
  and to nothing otherwise; a pool with a box has a nearest detection, and a pool without
  boxes gives no match. A result that attaches draws its label at the detection it
  attached to, a result that does not draws none.
\<close>

theorem result_attaches_to_nearest_detection:
  "(nearestAt (boxCenter (bbox result)) pool k m \<and> boundingBox (snd (pool ! k)) = Some b
      \<longrightarrow> findBestMatch result pool
            = (if m < width b * 0.75 then Some (pool ! k, k) else None))
   \<and> ((\<forall>x\<in>set pool. boundingBox (snd x) = None) \<longrightarrow> findBestMatch result pool = None)
   \<and> ((\<exists>x\<in>set pool. boundingBox (snd x) \<noteq> None)
        \<longrightarrow> (\<exists>k' m'. nearestAt (boxCenter (bbox result)) pool k' m'))
   \<and> attachLabels (result # rest) pool
       = (case findBestMatch result pool of
            None \<Rightarrow> attachLabels rest pool
          | Some (d, i) \<Rightarrow> (result, d) # attachLabels rest (splice1 i pool))
   \<and> concat (map (faceLabel w) (attachLabels [result] pool))
       = (case findBestMatch result pool of
            None \<Rightarrow> []
          | Some (d, i) \<Rightarrow> faceLabel w (result, d))"
proof (intro conjI impI)
  assume "nearestAt (boxCenter (bbox result)) pool k m
            \<and> boundingBox (snd (pool ! k)) = Some b"
  then show "findBestMatch result pool
               = (if m < width b * 0.75 then Some (pool ! k, k) else None)"
    using findBestMatch_nearest by blast
next
  assume "\<forall>x\<in>set pool. boundingBox (snd x) = None"
  then show "findBestMatch result pool = None" by (rule findBestMatch_no_box)
next
  assume "\<exists>x\<in>set pool. boundingBox (snd x) \<noteq> None"
  then show "\<exists>k' m'. nearestAt (boxCenter (bbox result)) pool k' m'"
    by (rule nearestAt_exists)
next
  show "attachLabels (result # rest) pool
       = (case findBestMatch result pool of
            None \<Rightarrow> attachLabels rest pool
          | Some (d, i) \<Rightarrow> (result, d) # attachLabels rest (splice1 i pool))"
    by (simp split: option.splits)
next
  show "concat (map (faceLabel w) (attachLabels [result] pool))
       = (case findBestMatch result pool of
            None \<Rightarrow> []
          | Some (d, i) \<Rightarrow> faceLabel w (result, d))"
    by (simp split: option.splits)
qed

theorem result_attaches_to_nearest_detection_witness:
  "findBestMatch
     \<lparr>bbox = \<lparr>originX = 0, originY = 0, width = 100, height = 100\<rparr>,
       result_text = ''Age: 30''\<rparr>
     [(0, \<lparr>boundingBox = Some \<lparr>originX = 200, originY = 0, width = 100, height = 100\<rparr>,
            categories = []\<rparr>),
      (1, \<lparr>boundingBox = Some \<lparr>originX = 30, originY = 0, width = 100, height = 100\<rparr>,
            categories = []\<rparr>)]
   = Some ((1, \<lparr>boundingBox = Some \<lparr>originX = 30, originY = 0, width = 100, height = 100\<rparr>,
                 categories = []\<rparr>), 1)
   \<and> findBestMatch
     \<lparr>bbox = \<lparr>originX = 110, originY = 0, width = 100, height = 100\<rparr>,
       result_text = ''Age: 30''\<rparr>
     [(0, \<lparr>boundingBox = Some \<lparr>originX = 200, originY = 0, width = 100, height = 100\<rparr>,
            categories = []\<rparr>),
      (1, \<lparr>boundingBox = Some \<lparr>originX = 30, originY = 0, width = 100, height = 100\<rparr>,
            categories = []\<rparr>)]
   = None"
proof -
  let ?bA = "\<lparr>originX = 30, originY = 0, width = 100, height = 100\<rparr>"
  let ?A = "\<lparr>boundingBox = Some ?bA, categories = []\<rparr>"
  let ?B = "\<lparr>boundingBox = Some \<lparr>originX = 200, originY = 0, width = 100, height = 100\<rparr>,
             categories = []\<rparr>"
  let ?near = "\<lparr>bbox = \<lparr>originX = 0, originY = 0, width = 100, height = 100\<rparr>,
                result_text = ''Age: 30''\<rparr>"
  let ?far = "\<lparr>bbox = \<lparr>originX = 110, originY = 0, width = 100, height = 100\<rparr>,
               result_text = ''Age: 30''\<rparr>"
  let ?pn = "boxCenter \<lparr>originX = 0, originY = 0, width = 100, height = 100\<rparr>"
  let ?pf = "boxCenter \<lparr>originX = 110, originY = 0, width = 100, height = 100\<rparr>"
  have nA: "\<And>i. detDistance ?pn (i, ?A) = Some 30"
    by (simp add: detDistance_def boxCenter_def centerDistance_def)
  have nB: "\<And>i. detDistance ?pn (i, ?B) = Some 200"
    by (simp add: detDistance_def boxCenter_def centerDistance_def)
  have fA: "\<And>i. detDistance ?pf (i, ?A) = Some 80"
    by (simp add: detDistance_def boxCenter_def centerDistance_def)
  have fB: "\<And>i. detDistance ?pf (i, ?B) = Some 90"
    by (simp add: detDistance_def boxCenter_def centerDistance_def)
  have n: "nearestAt (boxCenter (bbox ?near)) [(0, ?B), (1, ?A)] 1 30"
    unfolding nearestAt_def by (simp add: nA nB lessThan_Suc numeral_2_eq_2 nth_Cons')
  have f: "nearestAt (boxCenter (bbox ?far)) [(0, ?B), (1, ?A)] 1 80"
    unfolding nearestAt_def by (simp add: fA fB lessThan_Suc numeral_2_eq_2 nth_Cons')
  show ?thesis
    using result_attaches_to_nearest_detection [of ?near "[(0, ?B), (1, ?A)]" 1 30 ?bA]
      result_attaches_to_nearest_detection [of ?far "[(0, ?B), (1, ?A)]" 1 80 ?bA] n f
    by simp
qed

subsection \<open>Claimed detections\<close>

lemma splice1_distinct:
  assumes "distinct (map fst pool)" and "k < length pool"
  shows "distinct (map fst (splice1 k pool))
       \<and> set (splice1 k pool) \<subseteq> set pool
       \<and> fst (pool ! k) \<notin> fst ` set (splice1 k pool)"
proof -
  have "pool = take k pool @ pool ! k # drop (Suc k) pool"
    using assms(2) by (rule id_take_nth_drop)
  then have "distinct (map fst (take k pool @ pool ! k # drop (Suc k) pool))"
    using assms(1) by simp
  then have "distinct (map fst (splice1 k pool))
           \<and> fst (pool ! k) \<notin> fst ` set (splice1 k pool)"
    by (auto simp: splice1_def)
  moreover have "set (splice1 k pool) \<subseteq> set pool"
    by (auto simp: splice1_def dest: in_set_takeD in_set_dropD)
  ultimately show ?thesis by simp
qed

lemma attachLabels_claims:
  "distinct (map fst pool) \<Longrightarrow>
   distinct (map (\<lambda>a. fst (snd a)) (attachLabels rs pool))
   \<and> snd ` set (attachLabels rs pool) \<subseteq> set pool"
proof (induction rs arbitrary: pool)
  case Nil
  then show ?case by simp
next
  case (Cons r rs)
  show ?case
  proof (cases "findBestMatch r pool")
    case None
    then show ?thesis using Cons.IH [OF Cons.prems] by simp
  next
    case (Some a)
    obtain d k where a: "a = (d, k)" by (cases a)
    have k: "k < length pool" and d: "d = pool ! k"
      using findBestMatch_index Some a by blast+
    note sp = splice1_distinct [OF Cons.prems k]
    have ih: "distinct (map (\<lambda>a. fst (snd a)) (attachLabels rs (splice1 k pool)))
            \<and> snd ` set (attachLabels rs (splice1 k pool)) \<subseteq> set (splice1 k pool)"
      using Cons.IH sp by blast
    have fresh: "fst d \<notin> (\<lambda>a. fst (snd a)) ` set (attachLabels rs (splice1 k pool))"
    proof
      assume "fst d \<in> (\<lambda>a. fst (snd a)) ` set (attachLabels rs (splice1 k pool))"
      then obtain y where "y \<in> set (attachLabels rs (splice1 k pool))" "fst d = fst (snd y)"
        by auto
      then have "snd y \<in> snd ` set (attachLabels rs (splice1 k pool))" by simp
      then obtain x where "x \<in> snd ` set (attachLabels rs (splice1 k pool))" "fst d = fst x"
        using \<open>fst d = fst (snd y)\<close> by blast
      then have "fst d \<in> fst ` set (splice1 k pool)" using ih by blast
      then show False using sp d by simp
    qed
    have "d \<in> set pool" using k d by simp
    then show ?thesis
      using Some a ih sp fresh by (auto simp: image_iff)
  qed
qed

lemma attachLabels_positions:
  "snd ` set (attachLabels rs (enumerate 0 detections)) \<subseteq> set (enumerate 0 detections)"
  using attachLabels_claims [of "enumerate 0 detections" rs] by simp

text \<open>
  C2: in one matching pass no two results attach to the same detection. The detections
  claimed in a pass over a frame's detections are pairwise different objects of the
  frame; and when a result claims a detection of a pool of different objects, the
  detection is taken out of the pool the later results are matched against, so that none
  of them attaches to it.
\<close>

theorem no_detection_claimed_twice:
  "distinct (map (\<lambda>a. fst (snd a)) (faceAttachments results detections))
   \<and> (\<forall>a\<in>set (faceAttachments results detections).
         fst (snd a) < length detections \<and> detections ! fst (snd a) = snd (snd a))
   \<and> (distinct (map fst pool) \<and> findBestMatch result pool = Some (d, k)
        \<longrightarrow> attachLabels (result # rest) pool
              = (result, d) # attachLabels rest (splice1 k pool)
            \<and> length (splice1 k pool) + 1 = length pool
            \<and> d \<notin> set (splice1 k pool)
            \<and> d \<notin> snd ` set (attachLabels rest (splice1 k pool)))"
proof (intro conjI impI ballI)
  show "distinct (map (\<lambda>a. fst (snd a)) (faceAttachments results detections))"
    using attachLabels_claims [of "enumerate 0 detections"]
    by (simp add: faceAttachments_def split: option.splits)
next
  fix a assume "a \<in> set (faceAttachments results detections)"
  then have "snd a \<in> set (enumerate 0 detections)"
    using attachLabels_positions [of _ detections]
    by (auto simp: faceAttachments_def split: option.splits if_splits)
  then have "fst (snd a) < length detections \<and> detections ! fst (snd a) = snd (snd a)"
    using in_set_enumerate_eq [of "snd a" 0 detections] by simp
  then show "fst (snd a) < length detections" and "detections ! fst (snd a) = snd (snd a)"
    by simp_all
next
  assume a: "distinct (map fst pool) \<and> findBestMatch result pool = Some (d, k)"
  then have k: "k < length pool" and d: "d = pool ! k"
    using findBestMatch_index by blast+
  note sp = splice1_distinct [OF conjunct1 [OF a] k]
  show "attachLabels (result # rest) pool = (result, d) # attachLabels rest (splice1 k pool)"
    using a by simp
  show "length (splice1 k pool) + 1 = length pool"
    using k by (simp add: splice1_def)
  show gone: "d \<notin> set (splice1 k pool)" using sp d by force
  show "d \<notin> snd ` set (attachLabels rest (splice1 k pool))"
    using attachLabels_claims [of "splice1 k pool" rest] sp gone by blast
qed

theorem no_detection_claimed_twice_witness:
  "faceAttachments
     (Some [\<lparr>bbox = \<lparr>originX = 28, originY = 0, width = 100, height = 100\<rparr>,
              result_text = ''Age: 30''\<rparr>,
            \<lparr>bbox = \<lparr>originX = 32, originY = 0, width = 100, height = 100\<rparr>,
              result_text = ''Age: 60''\<rparr>])
     [\<lparr>boundingBox = Some \<lparr>originX = 30, originY = 0, width = 100, height = 100\<rparr>,
        categories = []\<rparr>,
      \<lparr>boundingBox = Some \<lparr>originX = 200, originY = 0, width = 100, height = 100\<rparr>,
        categories = []\<rparr>]
   = [(\<lparr>bbox = \<lparr>originX = 28, originY = 0, width = 100, height = 100\<rparr>,
         result_text = ''Age: 30''\<rparr>,
       (0, \<lparr>boundingBox = Some \<lparr>originX = 30, originY = 0, width = 100, height = 100\<rparr>,
             categories = []\<rparr>))]
   \<and> distinct (map (\<lambda>a. fst (snd a)) (faceAttachments
     (Some [\<lparr>bbox = \<lparr>originX = 28, originY = 0, width = 100, height = 100\<rparr>,
              result_text = ''Age: 30''\<rparr>,
            \<lparr>bbox = \<lparr>originX = 32, originY = 0, width = 100, height = 100\<rparr>,
              result_text = ''Age: 60''\<rparr>])
     [\<lparr>boundingBox = Some \<lparr>originX = 30, originY = 0, width = 100, height = 100\<rparr>,
        categories = []\<rparr>,
      \<lparr>boundingBox = Some \<lparr>originX = 200, originY = 0, width = 100, height = 100\<rparr>,
        categories = []\<rparr>]))"
proof -
  let ?A = "\<lparr>boundingBox = Some \<lparr>originX = 30, originY = 0, width = 100, height = 100\<rparr>,
             categories = []\<rparr>"
  let ?B = "\<lparr>boundingBox = Some \<lparr>originX = 200, originY = 0, width = 100, height = 100\<rparr>,
             categories = []\<rparr>"
  let ?r1 = "\<lparr>bbox = \<lparr>originX = 28, originY = 0, width = 100, height = 100\<rparr>,
              result_text = ''Age: 30''\<rparr>"
  let ?r2 = "\<lparr>bbox = \<lparr>originX = 32, originY = 0, width = 100, height = 100\<rparr>,
              result_text = ''Age: 60''\<rparr>"
  have m1: "findBestMatch ?r1 [(0, ?A), (1, ?B)] = Some ((0, ?A), 0)"
    by (simp add: findBestMatch_def Let_def boxCenter_def centerDistance_def)
  have m2: "findBestMatch ?r2 [(1, ?B)] = None"
    by (simp add: findBestMatch_def Let_def boxCenter_def centerDistance_def)
  have pool: "enumerate 0 [?A, ?B] = [(0, ?A), (1, ?B)]" by simp
  have dp: "distinct (map fst [(0::nat, ?A), (1, ?B)])" by simp
  have step: "attachLabels [?r1, ?r2] [(0, ?A), (1, ?B)]
                = (?r1, (0, ?A)) # attachLabels [?r2] (splice1 0 [(0, ?A), (1, ?B)])"
    using no_detection_claimed_twice
            [of "Some [?r1, ?r2]" "[?A, ?B]" "[(0, ?A), (1, ?B)]" ?r1 "(0, ?A)" 0 "[?r2]"]
          dp m1
    by blast
  have "faceAttachments (Some [?r1, ?r2]) [?A, ?B] = [(?r1, (0, ?A))]"
    unfolding faceAttachments_def pool using step m2 by (simp add: splice1_def)
  then show ?thesis
    using no_detection_claimed_twice
            [of "Some [?r1, ?r2]" "[?A, ?B]" "[(0, ?A), (1, ?B)]" ?r1 "(0, ?A)" 0 "[?r2]"]
    by simp
qed

section \<open>The session reset\<close>

lemma stopTracks_stops:
  "t \<in> set tracks \<Longrightarrow> \<not> stopTracks (Some tracks) live t"
  by (simp add: stopTracks_def)

lemma stopTracks_others:
  "(case prev of None \<Rightarrow> True | Some tracks \<Rightarrow> t \<notin> set tracks) \<Longrightarrow>
   stopTracks prev live t = live t"
  by (simp add: stopTracks_def split: option.splits)

text \<open>
  C7, as the code has it: the reset empties the five annotation arrays, stops every track
  of the stream it finds (no other track) and sets the stream to null, sets the image
  source to null and the draw-mode, uploaded-image and image-sent flags to false. The
  other cells of the store keep their values: the detect type, the video ref, the field
  of view, the hover cells, the active colour, the session counter, the loading flag,
  the temperature and the prompts.
\<close>

theorem reset_clears_annotations_and_stream:
  "BoundingBoxes2DAtom (useResetState s) = []
   \<and> BoundingBoxes3DAtom (useResetState s) = []
   \<and> BoundingBoxMasksAtom (useResetState s) = []
   \<and> PointsAtom (useResetState s) = []
   \<and> LinesAtom (useResetState s) = []
   \<and> ShareStream (useResetState s) = None
   \<and> (\<forall>tracks. ShareStream s = Some tracks
         \<longrightarrow> (\<forall>t\<in>set tracks. \<not> trackLive (useResetState s) t))
   \<and> (\<forall>t. (case ShareStream s of None \<Rightarrow> True | Some tracks \<Rightarrow> t \<notin> set tracks)
         \<longrightarrow> trackLive (useResetState s) t = trackLive s t)
   \<and> ImageSrcAtom (useResetState s) = None
   \<and> DrawModeAtom (useResetState s) = False
   \<and> IsUploadedImageAtom (useResetState s) = False
   \<and> ImageSentAtom (useResetState s) = False
   \<and> DetectTypeAtom (useResetState s) = DetectTypeAtom s
   \<and> VideoRefAtom (useResetState s) = VideoRefAtom s
   \<and> FOVAtom (useResetState s) = FOVAtom s
   \<and> RevealOnHoverModeAtom (useResetState s) = RevealOnHoverModeAtom s
   \<and> HoverEnteredAtom (useResetState s) = HoverEnteredAtom s
   \<and> HoveredBoxAtom (useResetState s) = HoveredBoxAtom s
   \<and> ActiveColorAtom (useResetState s) = ActiveColorAtom s
   \<and> BumpSessionAtom (useResetState s) = BumpSessionAtom s
   \<and> IsLoadingAtom (useResetState s) = IsLoadingAtom s
   \<and> TemperatureAtom (useResetState s) = TemperatureAtom s
   \<and> PromptsAtom (useResetState s) = PromptsAtom s
   \<and> CustomPromptsAtom (useResetState s) = CustomPromptsAtom s"
proof -
  have tr: "trackLive (useResetState s) = stopTracks (ShareStream s) (trackLive s)"
    by (simp add: useResetState_def)
  have stop: "\<forall>tracks. ShareStream s = Some tracks
         \<longrightarrow> (\<forall>t\<in>set tracks. \<not> trackLive (useResetState s) t)"
    using stopTracks_stops by (simp add: tr)
  have keep: "\<forall>t. (case ShareStream s of None \<Rightarrow> True | Some tracks \<Rightarrow> t \<notin> set tracks)
         \<longrightarrow> trackLive (useResetState s) t = trackLive s t"
    using stopTracks_others by (simp add: tr)
  show ?thesis
    using stop keep by (simp add: useResetState_def)
qed

theorem reset_clears_annotations_and_stream_witness:
  "BoundingBoxes2DAtom (useResetState
      (init_store\<lparr>BoundingBoxes2DAtom :=
          [\<lparr>x_2d = 1, y_2d = 2, width_2d = 3, height_2d = 4, label_2d = ''cup''\<rparr>],
        ShareStream := Some [5, 6]\<rparr>)) = []
   \<and> \<not> trackLive (useResetState
      (init_store\<lparr>BoundingBoxes2DAtom :=
          [\<lparr>x_2d = 1, y_2d = 2, width_2d = 3, height_2d = 4, label_2d = ''cup''\<rparr>],
        ShareStream := Some [5, 6]\<rparr>)) 5
   \<and> \<not> trackLive (useResetState
      (init_store\<lparr>BoundingBoxes2DAtom :=
          [\<lparr>x_2d = 1, y_2d = 2, width_2d = 3, height_2d = 4, label_2d = ''cup''\<rparr>],
        ShareStream := Some [5, 6]\<rparr>)) 6
   \<and> trackLive (useResetState
      (init_store\<lparr>BoundingBoxes2DAtom :=
          [\<lparr>x_2d = 1, y_2d = 2, width_2d = 3, height_2d = 4, label_2d = ''cup''\<rparr>],
        ShareStream := Some [5, 6]\<rparr>)) 7"
  using reset_clears_annotations_and_stream
    [of "init_store\<lparr>BoundingBoxes2DAtom :=
          [\<lparr>x_2d = 1, y_2d = 2, width_2d = 3, height_2d = 4, label_2d = ''cup''\<rparr>],
        ShareStream := Some [5, 6]\<rparr>"]
  by (simp add: init_store_def)

text \<open>
  Cells the reset leaves as they are: after it the temperature, the field of view, the
  hovered box and a custom prompt still hold what the session put there, not the values
  of a blank session (0.25, 90, null and the empty string).
\<close>

theorem reset_keeps_other_cells:
  "TemperatureAtom (useResetState
     (init_store\<lparr>TemperatureAtom := 1, FOVAtom := 60, HoveredBoxAtom := Some 2,
        CustomPromptsAtom := (\<lambda>t. ''a dog'')\<rparr>)) = 1
   \<and> FOVAtom (useResetState
     (init_store\<lparr>TemperatureAtom := 1, FOVAtom := 60, HoveredBoxAtom := Some 2,
        CustomPromptsAtom := (\<lambda>t. ''a dog'')\<rparr>)) = 60
   \<and> HoveredBoxAtom (useResetState
     (init_store\<lparr>TemperatureAtom := 1, FOVAtom := 60, HoveredBoxAtom := Some 2,
        CustomPromptsAtom := (\<lambda>t. ''a dog'')\<rparr>)) = Some 2
   \<and> CustomPromptsAtom (useResetState
     (init_store\<lparr>TemperatureAtom := 1, FOVAtom := 60, HoveredBoxAtom := Some 2,
        CustomPromptsAtom := (\<lambda>t. ''a dog'')\<rparr>)) Points = ''a dog''
   \<and> TemperatureAtom init_store = 0.25 \<and> FOVAtom init_store = 90
   \<and> HoveredBoxAtom init_store = None \<and> CustomPromptsAtom init_store Points = []"
  by (simp add: useResetState_def init_store_def)

section \<open>The object renderers\<close>








subsection \<open>The target filter\<close>

lemma drawObjectDetection_drawn:
  "drawObjectDetection targets cw d \<noteq> [] \<longleftrightarrow>
     (\<exists>b c cs. boundingBox d = Some b \<and> categories d = c # cs
        \<and> (targets = []
           \<or> list_ex (\<lambda>target. str_includes (toLowerCase (categoryName c)) target) targets))"
  by (auto simp: drawObjectDetection_def Let_def split: option.splits list.splits)

text \<open>
  The renderer called by hand at the target \<open>sandwich\<close> with a detection of a person. In
  the words of the specification the only token is \<open>sandwich\<close>, which the category
  \<open>person\<close> does not contain. The regular expression splits the target inside the word,
  at the letters a, n, d: the tokens are \<open>s\<close> and \<open>wich\<close>, the category contains \<open>s\<close>, and
  the box of the person is stroked. No run of the component makes this call (see the
  next section).
\<close>

lemma split_regex_inside_words:
  "targets_spec ''sandwich'' = [''sandwich'']
   \<and> \<not> str_includes (toLowerCase ''person'') ''sandwich''
   \<and> targets_of ''sandwich'' = [''s'', ''wich'']
   \<and> strokeRects (drawObjectDetections ''sandwich'' 640
        [\<lparr>boundingBox = Some \<lparr>originX = 10, originY = 10, width = 100, height = 50\<rparr>,
          categories = [\<lparr>categoryName = ''person'', score = 0.9\<rparr>]\<rparr>])
     = [(530, 10, 100, 50)]"
proof -
  have a: "targets_spec ''sandwich'' = [''sandwich'']" by code_simp
  have l: "toLowerCase ''person'' = ''person''" by code_simp
  have b: "\<not> str_includes ''person'' ''sandwich''" by simp
  have c: "targets_of ''sandwich'' = [''s'', ''wich'']" by code_simp
  have i: "str_includes ''person'' ''s''" by simp
  show ?thesis
    by (simp add: a l b c i drawObjectDetections_def drawObjectDetection_def Let_def
          mirror_def)
qed

section \<open>The render loop of the first render\<close>

lemma canvasCalls_append: "canvasCalls (xs @ ys) = canvasCalls xs @ canvasCalls ys"
  by (induction xs rule: canvasCalls.induct) simp_all

lemma canvasCalls_Draw: "canvasCalls (map Draw ops) = ops"
  by (induction ops) simp_all

text \<open>
  In the tracker version the loop keeps the target of the first render: after the
  prompt \<open>cup\<close> is submitted the cell \<open>detectionTarget\<close> holds \<open>cup\<close>, and the next frame,
  with a cup and a person in view, still has the box of the person stroked, not the
  box of the cup.
\<close>

lemma tracker_loop_keeps_first_target:
  "detectionTarget (run_tracker [Setup_tracker (Some 7), Typed_tracker ''cup'',
      Submitted_tracker None]) = ''cup''
   \<and> strokeRects (canvasCalls (trace (run_tracker
        [Setup_tracker (Some 7), Typed_tracker ''cup'', Submitted_tracker None,
         Rendered_tracker [] []
           \<lparr>video_currentTime = 2, performance_now = 120,
             detector_result = Detections
               [\<lparr>boundingBox = Some \<lparr>originX = 10, originY = 10, width = 100, height = 50\<rparr>,
                  categories = [\<lparr>categoryName = ''cup'', score = 0.9\<rparr>]\<rparr>,
                \<lparr>boundingBox = Some \<lparr>originX = 300, originY = 20, width = 80, height = 80\<rparr>,
                  categories = [\<lparr>categoryName = ''person'', score = 0.8\<rparr>]\<rparr>],
             canvas_width = 640, canvas_height = 480\<rparr>])))
     = [(260, 20, 80, 80)]"
proof -
  let ?frame = "\<lparr>video_currentTime = 2, performance_now = 120,
             detector_result = Detections
               [\<lparr>boundingBox = Some \<lparr>originX = 10, originY = 10, width = 100, height = 50\<rparr>,
                  categories = [\<lparr>categoryName = ''cup'', score = 0.9\<rparr>]\<rparr>,
                \<lparr>boundingBox = Some \<lparr>originX = 300, originY = 20, width = 80, height = 80\<rparr>,
                  categories = [\<lparr>categoryName = ''person'', score = 0.8\<rparr>]\<rparr>],
             canvas_width = 640, canvas_height = 480\<rparr>"
  let ?s = "run_tracker [Setup_tracker (Some 7), Typed_tracker ''cup'',
              Submitted_tracker None]"
  have lp: "trim (toLowerCase ''cup'') = ''cup''" by code_simp
  have nf: "\<not> some_includes faceKeywords ''cup''" by code_simp
  have nh: "\<not> some_includes handKeywords ''cup''" by code_simp
  have np: "\<not> some_includes poseKeywords ''cup''" by code_simp
  have r: "routePrompt ''cup'' = (Object, ''cup'')"
    using nf nh np by (simp add: routePrompt_def)
  have s: "?s = init_tracker\<lparr>isLoading := False,
                  loadingMessage := ''Updating tracker...'',
                  trace := [CreateFromOptions ObjectDetector], objectDetector := Some 7,
                  inputPrompt := ''cup'', detectionTarget := ''cup''\<rparr>"
    by (simp add: run_tracker_def init_tracker_def switchModel_tracker_def
          switchModel_begin_tracker_def switchModel_end_tracker_def close_opt_def
          modelKind_tracker_def handlePromptSubmit_tracker_def Let_def lp r)
  have tp: "trim ''person'' = ''person''" by code_simp
  have lc: "toLowerCase ''cup'' = ''cup''" by code_simp
  have lpn: "toLowerCase ''person'' = ''person''" by code_simp
  have i1: "\<not> str_includes ''cup'' ''person''" by simp
  have i2: "str_includes ''person'' ''person''" by simp
  have step: "run_tracker [Setup_tracker (Some 7), Typed_tracker ''cup'',
                Submitted_tracker None, Rendered_tracker [] [] ?frame]
              = step_tracker ?s (Rendered_tracker [] [] ?frame)"
    by (simp add: run_tracker_def)
  have "strokeRects (canvasCalls (trace (step_tracker ?s (Rendered_tracker [] [] ?frame))))
          = [(260, 20, 80, 80)]"
    unfolding s
    by (simp add: stateCells_tracker_def init_tracker_def renderLoop_tracker_def Let_def
          activeDetector_tracker_def drawResults_tracker_def canvasCalls_append
          canvasCalls_Draw tp lc lpn i1 i2 mirror_def)
  then show ?thesis unfolding step by (simp add: s)
qed


end
